theory Spec2Isabelle
  imports Complex_Main "HOL-Library.Signed_Division" "HOL-Library.Sublist" "HOL-Library.AList"
begin

section \<open>JavaScript values\<close>

text \<open>
  Values that reach the server as parsed JSON (message fields, persisted state). Numbers are
  modelled as integers. \<open>JUndef\<close> is the value of a property that is absent.
\<close>

datatype jsval =
    JUndef
  | JNull
  | JBool bool
  | JNum int
  | JStr string
  | JArr "jsval list"
  | JObj "(string \<times> jsval) list"

datatype error = TypeError | IOError

text \<open>Truthiness, as tested by \<open>if (v)\<close>, \<open>!v\<close> and \<open>a && b\<close>.\<close>

fun truthy :: "jsval \<Rightarrow> bool" where
  "truthy JUndef = False"
| "truthy JNull = False"
| "truthy (JBool b) = b"
| "truthy (JNum n) = (n \<noteq> 0)"
| "truthy (JStr s) = (s \<noteq> [])"
| "truthy (JArr _) = True"
| "truthy (JObj _) = True"

definition js_not :: "jsval \<Rightarrow> bool" where
  "js_not v = (\<not> truthy v)"

text \<open>
  \<open>a === b\<close> between a stored value and a field of a freshly parsed message: primitives
  compare by value; two arrays or objects are distinct references, hence never equal.
\<close>

fun strict_eq :: "jsval \<Rightarrow> jsval \<Rightarrow> bool" where
  "strict_eq JUndef JUndef = True"
| "strict_eq JNull JNull = True"
| "strict_eq (JBool a) (JBool b) = (a = b)"
| "strict_eq (JNum a) (JNum b) = (a = b)"
| "strict_eq (JStr a) (JStr b) = (a = b)"
| "strict_eq _ _ = False"

text \<open>Decimal rendering of an integer, as \<open>String(n)\<close> and string concatenation do.\<close>

fun digits :: "nat \<Rightarrow> string" where
  "digits n = (if n < 10 then [''0123456789'' ! n]
               else digits (n div 10) @ [''0123456789'' ! (n mod 10)])"

declare digits.simps [simp del]

definition show_int :: "int \<Rightarrow> string" where
  "show_int i = (if i < 0 then CHR ''-'' # digits (nat (- i)) else digits (nat i))"

text \<open>
  \<open>v.toString()\<close> on a parsed JSON value. It throws on \<open>undefined\<close> and \<open>null\<close>, and on an
  object whose own \<open>toString\<close> property (never a function in parsed JSON) shadows the method.
  An array joins its elements with commas, \<open>null\<close> elements rendering as the empty string.
\<close>

fun js_join :: "(error + string) list \<Rightarrow> error + string" where
  "js_join [] = Inr []"
| "js_join [r] = r"
| "js_join (r # rs) =
     (case r of Inl e \<Rightarrow> Inl e
      | Inr s \<Rightarrow> (case js_join rs of Inl e \<Rightarrow> Inl e | Inr t \<Rightarrow> Inr (s @ '','' @ t)))"

fun js_toString :: "jsval \<Rightarrow> error + string" where
  "js_toString JUndef = Inl TypeError"
| "js_toString JNull = Inl TypeError"
| "js_toString (JBool b) = Inr (if b then ''true'' else ''false'')"
| "js_toString (JNum n) = Inr (show_int n)"
| "js_toString (JStr s) = Inr s"
| "js_toString (JArr vs) =
     js_join (map (\<lambda>v. if v = JUndef \<or> v = JNull then Inr [] else js_toString v) vs)"
| "js_toString (JObj fs) =
     (if ''toString'' \<in> fst ` set fs then Inl TypeError else Inr ''[object Object]'')"

text \<open>A parsed message envelope and the read of one of its properties.\<close>

type_synonym msg = "(string \<times> jsval) list"

definition fld :: "msg \<Rightarrow> string \<Rightarrow> jsval" where
  "fld m k = (case map_of m k of None \<Rightarrow> JUndef | Some v \<Rightarrow> v)"

text \<open>Index of the first element that satisfies a predicate (\<open>Array.prototype.find\<close>).\<close>

fun find_index :: "('a \<Rightarrow> bool) \<Rightarrow> 'a list \<Rightarrow> nat option" where
  "find_index P [] = None"
| "find_index P (v # vs) =
     (if P v then Some 0 else map_option Suc (find_index P vs))"

section \<open>Data model\<close>

datatype ready_state = CONNECTING | OPEN | CLOSING | CLOSED

text \<open>
  The \<open>clients\<close> map, in insertion order: connection id and the socket's ready state.
\<close>

type_synonym clients = "(nat \<times> ready_state) list"

record game_time =
  tick :: int
  hour :: int
  day :: int

text \<open>
  An object instance. \<open>removedAt\<close> and \<open>respawnAfterSec\<close> are a number or \<open>null\<close>; the fields
  a \<open>drop\<close> message overwrites hold whatever the message carried.
\<close>

record obj_inst =
  o_instanceId :: string
  o_typeId :: jsval
  o_zone :: string
  o_roomId :: jsval
  o_x :: jsval
  o_y :: jsval
  o_pickedUpBy :: jsval
  o_removedAt :: "int option"
  o_respawnAfterSec :: "int option"

text \<open>
  The inventory of a position entry: the array read from the player file at login, or the
  live instances a \<open>drop\<close> puts there.
\<close>

datatype inventory = InvFile "jsval list" | InvLive "obj_inst list"

text \<open>An entry of the \<open>positions\<close> map.\<close>

record player =
  p_name :: string
  p_x :: jsval
  p_y :: jsval
  p_roomId :: jsval
  p_privilege :: int
  p_color :: string
  p_inventory :: inventory
  p_salt :: jsval
  p_hash :: jsval
  p_zone :: string

type_synonym positions = "(nat \<times> player) list"

text \<open>
  \<open>initialPos\<close> of the login handler: defaults, overwritten by the fields of the player file
  that have the expected type, so the numeric fields are always numbers.
\<close>

record initial_pos =
  ip_name :: string
  ip_x :: int
  ip_y :: int
  ip_roomId :: int
  ip_color :: string
  ip_privilege :: int
  ip_inventory :: "jsval list"
  ip_salt :: jsval
  ip_hash :: jsval

text \<open>A player file as parsed; \<open>JUndef\<close> for a field the file lacks.\<close>

record player_file =
  pf_x :: jsval
  pf_y :: jsval
  pf_roomId :: jsval
  pf_color :: jsval
  pf_inventory :: jsval
  pf_privilege :: jsval
  pf_salt :: jsval
  pf_hash :: jsval

text \<open>
  What \<open>players/<name>.json\<close> holds: nothing, text that \<open>JSON.parse\<close> rejects, or a record.
\<close>

datatype pfile = NoFile | Corrupt | Rec player_file

text \<open>
  The first message of a connection, \<open>{name, password, create}\<close>, with string name and
  password (empty when absent) and the truthiness of \<open>create\<close>.
\<close>

record auth_msg =
  am_name :: string
  am_password :: string
  am_create :: bool

text \<open>The roam policy of an NPC template and an NPC instance.\<close>

record roam =
  r_type :: string
  r_frequency :: int
  r_minDuration :: int
  r_maxDuration :: int
  r_rate :: int

text \<open>
  \<open>movePath\<close>, \<open>moveStartTick\<close> and \<open>moveDuration\<close> are \<open>None\<close> while the instance has no such
  property (a freshly generated instance, before the boot loop adds them).
\<close>

record npc =
  n_instanceId :: string
  n_typeId :: jsval
  n_name :: jsval
  n_sprite :: jsval
  n_zone :: string
  n_roomId :: int
  n_x :: int
  n_y :: int
  n_roam :: "roam option"
  n_lastRoamTick :: int
  n_movePath :: "jsval option"
  n_moveStartTick :: "int option"
  n_moveDuration :: "int option"

text \<open>
  A room file as parsed: the rows of \<open>tiles\<close> (each row and each tile is whatever JSON the file
  holds), the dimensions, and the remaining attributes (id, exits, spawns, npcs, ...).
\<close>

record room =
  rm_width :: int
  rm_height :: int
  rm_tiles :: "jsval list"
  rm_other :: "(string \<times> jsval) list"

text \<open>A spawn definition gathered from a room file at boot.\<close>

record spawn_def =
  sd_typeId :: jsval
  sd_zone :: string
  sd_roomId :: int
  sd_x :: jsval
  sd_y :: jsval
  sd_respawnAfterSec :: "int option"

text \<open>
  The glyph literals of the time display are kept as named constants.
\<close>

definition glyph_snow :: string where "glyph_snow = ''<snow>''"
definition glyph_leaf :: string where "glyph_leaf = ''<leaf>''"
definition glyph_sun :: string where "glyph_sun = ''<sun>''"
definition glyph_fall :: string where "glyph_fall = ''<fall>''"
definition glyph_moon :: string where "glyph_moon = ''<moon>''"

record time_update =
  tu_hour :: string
  tu_day :: int
  tu_year :: int
  tu_season :: string

section \<open>Messages and effects\<close>

datatype server_msg =
    MError string
  | MTimeUpdate time_update
  | MObjectPicked obj_inst nat
  | MObjectDropped obj_inst
  | MObjectSpawned obj_inst
  | MInit nat positions int int int int
  | MInitObjects "obj_inst list"
  | MInitInventory "obj_inst list"
  | MInitNpcs "npc list"
  | MJoin nat initial_pos
  | MRoomUpdated int msg
  | MRoomResized int int int
  | MNpcStartPath string "(int \<times> int) list" int
  | MNpcMove npc

text \<open>
  What a handler or the tick does to the outside: a message sent on a connection's socket,
  a socket closed, and the files written.
\<close>

datatype effect =
    Send nat server_msg
  | Close nat
  | CloseUnregistered
  | SaveGameTime game_time
  | SaveObjectsState "obj_inst list"
  | SavePlayerData player
  | SaveNpcState "npc list"


text \<open>
  \<open>broadcastToRoom\<close>: the connections that have a position entry in the zone and room and whose
  socket is open.
\<close>

definition room_recipients :: "clients \<Rightarrow> positions \<Rightarrow> string \<Rightarrow> jsval \<Rightarrow> nat list" where
  "room_recipients cs ps z r =
     map fst (filter (\<lambda>(otherId, client).
        (case map_of ps otherId of None \<Rightarrow> False
         | Some pos \<Rightarrow> p_zone pos = z \<and> strict_eq (p_roomId pos) r \<and> client = OPEN)) cs)"

definition broadcastToRoom :: "clients \<Rightarrow> positions \<Rightarrow> string \<Rightarrow> jsval \<Rightarrow> server_msg \<Rightarrow> effect list" where
  "broadcastToRoom cs ps z r m = map (\<lambda>i. Send i m) (room_recipients cs ps z r)"

text \<open>
  The \<open>catch\<close> of the message handler: the requester is answered with a generic error if its
  socket is still open.
\<close>

definition catch_reply :: "clients \<Rightarrow> nat \<Rightarrow> effect list" where
  "catch_reply cs i =
     (if map_of cs i = Some OPEN then [Send i (MError ''Invalid message format'')] else [])"

section \<open>Game time\<close>

definition getFormattedTimeMessage :: "game_time \<Rightarrow> time_update" where
  "getFormattedTimeMessage g =
    (let year = day g div 360 + 1;
         dayOfYear = day g smod 360;
         season = (if dayOfYear \<ge> 90 \<and> dayOfYear < 180 then glyph_leaf
                   else if dayOfYear \<ge> 180 \<and> dayOfYear < 270 then glyph_sun
                   else if dayOfYear \<ge> 270 then glyph_fall
                   else glyph_snow);
         twelveHourFormat = (if hour g > 12 then hour g - 12 else hour g);
         h = hour g;
         timeDisplay =
           (if h \<in> {21, 22, 23, 0, 1, 2, 3, 4} then glyph_moon @ '' '' @ show_int twelveHourFormat @ '':00''
            else if h \<in> {5, 6, 7, 8, 9, 10, 11} then glyph_sun @ '' '' @ show_int twelveHourFormat @ '':00''
            else if h = 12 then glyph_sun @ '' '' @ show_int twelveHourFormat @ '':00''
            else if h \<in> {13, 14, 15, 16, 17} then glyph_sun @ '' '' @ show_int twelveHourFormat @ '':00''
            else if h \<in> {18, 19, 20} then glyph_moon @ '' '' @ show_int twelveHourFormat @ '':00''
            else [])
     in \<lparr> tu_hour = timeDisplay @ (if hour g \<ge> 12 then '' PM'' else '' AM''),
          tu_day = day g, tu_year = year, tu_season = season \<rparr>)"



section \<open>Object instances\<close>

text \<open>
  Boot reconciliation: every spawn definition without a live instance of the same type and
  place gets a new unowned instance. The instance ids come from \<open>crypto.randomBytes\<close>; they
  are the list \<open>ids\<close>, one taken per instance created.
\<close>

definition spawn_exists :: "spawn_def \<Rightarrow> obj_inst list \<Rightarrow> bool" where
  "spawn_exists d insts =
     (\<exists>i \<in> set insts. strict_eq (o_typeId i) (sd_typeId d) \<and> o_zone i = sd_zone d \<and>
        strict_eq (o_roomId i) (JNum (sd_roomId d)) \<and>
        strict_eq (o_x i) (sd_x d) \<and> strict_eq (o_y i) (sd_y d))"

fun reconcile :: "spawn_def list \<Rightarrow> string list \<Rightarrow> obj_inst list \<Rightarrow> obj_inst list" where
  "reconcile [] ids insts = insts"
| "reconcile (d # ds) ids insts =
     (if spawn_exists d insts then reconcile ds ids insts
      else reconcile ds (tl ids)
             (insts @ [\<lparr> o_instanceId = (case ids of [] \<Rightarrow> [] | i # _ \<Rightarrow> i),
                         o_typeId = sd_typeId d, o_zone = sd_zone d,
                         o_roomId = JNum (sd_roomId d), o_x = sd_x d, o_y = sd_y d,
                         o_pickedUpBy = JNull, o_removedAt = None,
                         o_respawnAfterSec = sd_respawnAfterSec d \<rparr>]))"

definition by_instanceId :: "msg \<Rightarrow> obj_inst \<Rightarrow> bool" where
  "by_instanceId m i = strict_eq (JStr (o_instanceId i)) (fld m ''instanceId'')"

text \<open>
  The \<open>pickup\<close> handler of connection \<open>cid\<close>, authenticated as \<open>name\<close>. It returns the instance
  list and what was written and sent.
\<close>

definition pickup ::
  "nat \<Rightarrow> string \<Rightarrow> game_time \<Rightarrow> clients \<Rightarrow> positions \<Rightarrow> obj_inst list \<Rightarrow> msg
     \<Rightarrow> obj_inst list \<times> effect list" where
  "pickup cid name g cs ps insts m =
     (case js_toString (fld m ''zone'') of
        Inl e \<Rightarrow> (insts, catch_reply cs cid)
      | Inr zoneKey \<Rightarrow>
          (let roomNum = fld m ''roomId'' in
           case find_index (by_instanceId m) insts of
             None \<Rightarrow> (insts, [])
           | Some k \<Rightarrow>
               (let inst = insts ! k in
                if strict_eq (o_pickedUpBy inst) JNull \<and> o_zone inst = zoneKey \<and>
                   strict_eq (o_roomId inst) roomNum
                then (let inst' = inst\<lparr> o_pickedUpBy := JStr name, o_removedAt := Some (tick g) \<rparr>;
                          insts' = insts[k := inst']
                      in (insts', SaveObjectsState insts' #
                            broadcastToRoom cs ps zoneKey (o_roomId inst') (MObjectPicked inst' cid)))
                else (insts, []))))"

text \<open>The \<open>drop\<close> handler. It also rewrites the inventory of the caller's position entry.\<close>

definition drop_obj ::
  "nat \<Rightarrow> string \<Rightarrow> clients \<Rightarrow> positions \<Rightarrow> obj_inst list \<Rightarrow> msg
     \<Rightarrow> obj_inst list \<times> positions \<times> effect list" where
  "drop_obj cid name cs ps insts m =
     (case js_toString (fld m ''zone'') of
        Inl e \<Rightarrow> (insts, ps, catch_reply cs cid)
      | Inr zoneKey \<Rightarrow>
          (case find_index (by_instanceId m) insts of
             None \<Rightarrow> (insts, ps, [])
           | Some k \<Rightarrow>
               (let inst = insts ! k in
                if strict_eq (o_pickedUpBy inst) (JStr name)
                then (let inst' = inst\<lparr> o_pickedUpBy := JNull, o_removedAt := None,
                                         o_x := fld m ''x'', o_y := fld m ''y'',
                                         o_zone := zoneKey, o_roomId := fld m ''roomId'' \<rparr>;
                          insts' = insts[k := inst'];
                          out = SaveObjectsState insts' #
                                broadcastToRoom cs ps zoneKey (o_roomId inst') (MObjectDropped inst')
                      in case map_of ps cid of
                           None \<Rightarrow> (insts', ps, out @ catch_reply cs cid)
                         | Some playerData \<Rightarrow>
                             (let pd = playerData\<lparr> p_inventory :=
                                         InvLive (filter (\<lambda>i. strict_eq (o_pickedUpBy i) (JStr name)) insts') \<rparr>
                              in (insts', AList.update cid pd ps, out @ [SavePlayerData pd])))
                else (insts, ps, []))))"

text \<open>
  The respawn sweep of the tick, over the instances in order. \<open>seen\<close> are the instances already
  visited; each respawn writes the whole list as it stands at that moment.
\<close>

definition respawn_due :: "int \<Rightarrow> obj_inst \<Rightarrow> bool" where
  "respawn_due t inst =
     (\<not> strict_eq (o_pickedUpBy inst) JNull \<and>
      (case o_respawnAfterSec inst of None \<Rightarrow> False | Some r \<Rightarrow> r \<noteq> 0) \<and>
      (case o_removedAt inst of None \<Rightarrow> False | Some a \<Rightarrow> a \<noteq> 0) \<and>
      t - the (o_removedAt inst) \<ge> the (o_respawnAfterSec inst))"

fun sweep_from ::
  "int \<Rightarrow> clients \<Rightarrow> positions \<Rightarrow> obj_inst list \<Rightarrow> obj_inst list \<Rightarrow> obj_inst list \<times> effect list" where
  "sweep_from t cs ps seen [] = (seen, [])"
| "sweep_from t cs ps seen (inst # rest) =
     (if respawn_due t inst
      then (let inst' = inst\<lparr> o_pickedUpBy := JNull, o_removedAt := None \<rparr>;
                (res, out) = sweep_from t cs ps (seen @ [inst']) rest
            in (res, SaveObjectsState (seen @ inst' # rest) #
                     broadcastToRoom cs ps (o_zone inst') (o_roomId inst') (MObjectSpawned inst') @ out))
      else sweep_from t cs ps (seen @ [inst]) rest)"

definition respawn_sweep ::
  "game_time \<Rightarrow> clients \<Rightarrow> positions \<Rightarrow> obj_inst list \<Rightarrow> obj_inst list \<times> effect list" where
  "respawn_sweep g cs ps insts = sweep_from (tick g) cs ps [] insts"

section \<open>Object operations as a transition system\<close>

text \<open>What the sweep does to one instance.\<close>

definition respawn1 :: "int \<Rightarrow> obj_inst \<Rightarrow> obj_inst" where
  "respawn1 t i = (if respawn_due t i then i\<lparr> o_pickedUpBy := JNull, o_removedAt := None \<rparr> else i)"


text \<open>A small world for the concrete runs below.\<close>

definition ex_apple :: obj_inst where
  "ex_apple = \<lparr> o_instanceId = ''I1'', o_typeId = JStr ''apple'', o_zone = ''0'',
                 o_roomId = JNum 0, o_x = JNum 0, o_y = JNum 0, o_pickedUpBy = JNull,
                 o_removedAt = None, o_respawnAfterSec = Some 5 \<rparr>"

definition ex_player :: "string \<Rightarrow> player" where
  "ex_player n = \<lparr> p_name = n, p_x = JNum 400, p_y = JNum 300, p_roomId = JNum 0,
                    p_privilege = 0, p_color = ''red'', p_inventory = InvFile [],
                    p_salt = JStr ''s'', p_hash = JStr ''h'', p_zone = ''0'' \<rparr>"

definition ex_clients :: clients where
  "ex_clients = [(0, OPEN), (1, OPEN)]"

definition ex_positions :: positions where
  "ex_positions = [(0, ex_player ''Ava''), (1, (ex_player ''Bo'')\<lparr> p_roomId := JNum 1 \<rparr>)]"

definition ex_pickup_msg :: msg where
  "ex_pickup_msg = [(''type'', JStr ''pickup''), (''zone'', JNum 0), (''roomId'', JNum 0),
                    (''instanceId'', JStr ''I1'')]"

text \<open>
  The operations that touch the instance registry, each with the environment it runs in.
\<close>

datatype obj_op =
    OpBoot "spawn_def list" "string list"
  | OpPickup nat string game_time clients positions msg
  | OpDrop nat string clients positions msg
  | OpSweep game_time clients positions

fun apply_obj_op :: "obj_inst list \<Rightarrow> obj_op \<Rightarrow> obj_inst list" where
  "apply_obj_op insts (OpBoot ds ids) = reconcile ds ids insts"
| "apply_obj_op insts (OpPickup cid name g cs ps m) = fst (pickup cid name g cs ps insts m)"
| "apply_obj_op insts (OpDrop cid name cs ps m) = fst (drop_obj cid name cs ps insts m)"
| "apply_obj_op insts (OpSweep g cs ps) = fst (respawn_sweep g cs ps insts)"

definition in_world :: "obj_inst \<Rightarrow> bool" where
  "in_world i \<longleftrightarrow> o_pickedUpBy i = JNull"

definition held_by :: "obj_inst \<Rightarrow> string \<Rightarrow> bool" where
  "held_by i n \<longleftrightarrow> o_pickedUpBy i = JStr n"

definition owner_wf :: "obj_inst \<Rightarrow> bool" where
  "owner_wf i = (case o_pickedUpBy i of JNull \<Rightarrow> True | JStr n \<Rightarrow> True | _ \<Rightarrow> False)"

definition ex_carried :: obj_inst where
  "ex_carried = \<lparr> o_instanceId = ''I0'', o_typeId = JStr ''key'', o_zone = ''0'',
                   o_roomId = JNum 1, o_x = JNum 2, o_y = JNum 2, o_pickedUpBy = JStr ''Bo'',
                   o_removedAt = Some 7, o_respawnAfterSec = None \<rparr>"

definition ex_spawn :: spawn_def where
  "ex_spawn = \<lparr> sd_typeId = JStr ''apple'', sd_zone = ''0'', sd_roomId = 0,
                 sd_x = JNum 0, sd_y = JNum 0, sd_respawnAfterSec = Some 5 \<rparr>"

definition ex_drop_msg :: msg where
  "ex_drop_msg = [(''type'', JStr ''drop''), (''zone'', JNum 0), (''roomId'', JNum 0),
                  (''instanceId'', JStr ''I1''), (''x'', JNum 3), (''y'', JNum 4)]"

definition ex_ops :: "obj_op list" where
  "ex_ops = [OpBoot [ex_spawn] [''I1''],
             OpPickup 0 ''Ava'' \<lparr> tick = 42, hour = 0, day = 0 \<rparr> ex_clients ex_positions ex_pickup_msg,
             OpSweep \<lparr> tick = 43, hour = 0, day = 0 \<rparr> ex_clients ex_positions,
             OpDrop 0 ''Ava'' ex_clients ex_positions ex_drop_msg]"

section \<open>Authentication\<close>

text \<open>
  The connection registry: the id counter and the three maps keyed by connection id.
\<close>

record registry =
  reg_clientId :: nat
  reg_clients :: clients
  reg_nameMap :: "(nat \<times> string) list"
  reg_positions :: positions

datatype auth_outcome = Authenticated nat | Refused

definition colors :: "string list" where
  "colors = [''red'', ''green'', ''blue'', ''orange'', ''purple'', ''yellow'']"

text \<open>
  \<open>verifyPassword\<close>. The key derivation \<open>kdf password salt\<close> is \<open>crypto.pbkdf2Sync\<close>, which throws
  when the salt is not a string.
\<close>

definition verifyPassword :: "(string \<Rightarrow> string \<Rightarrow> string) \<Rightarrow> string \<Rightarrow> jsval \<Rightarrow> jsval \<Rightarrow> error + bool" where
  "verifyPassword kdf password salt hash =
     (case salt of JStr s \<Rightarrow> Inr (strict_eq hash (JStr (kdf password s))) | _ \<Rightarrow> Inl TypeError)"

text \<open>The fields of the player file that overwrite the defaults of \<open>initialPos\<close>.\<close>

definition fill_from_file :: "initial_pos \<Rightarrow> player_file \<Rightarrow> initial_pos" where
  "fill_from_file ip d =
     ip\<lparr> ip_x := (case pf_x d of JNum v \<Rightarrow> v | _ \<Rightarrow> ip_x ip),
         ip_y := (case pf_y d of JNum v \<Rightarrow> v | _ \<Rightarrow> ip_y ip),
         ip_roomId := (case pf_roomId d of JNum v \<Rightarrow> v | _ \<Rightarrow> ip_roomId ip),
         ip_color := (case pf_color d of JStr v \<Rightarrow> v | _ \<Rightarrow> ip_color ip),
         ip_privilege := (case pf_privilege d of JNum v \<Rightarrow> v | _ \<Rightarrow> ip_privilege ip),
         ip_inventory := (case pf_inventory d of JArr v \<Rightarrow> v | _ \<Rightarrow> ip_inventory ip),
         ip_salt := pf_salt d,
         ip_hash := pf_hash d \<rparr>"

text \<open>What \<open>savePlayerData(initialPos)\<close> writes for a new character.\<close>

definition file_of_initial :: "initial_pos \<Rightarrow> player_file" where
  "file_of_initial ip =
     \<lparr> pf_x = JNum (ip_x ip), pf_y = JNum (ip_y ip), pf_roomId = JNum (ip_roomId ip),
       pf_color = JStr (ip_color ip), pf_inventory = JArr (ip_inventory ip),
       pf_privilege = JNum (ip_privilege ip), pf_salt = ip_salt ip, pf_hash = ip_hash ip \<rparr>"

text \<open>
  A refusal after the id was taken: the error is sent and the socket closed, and the handler
  returns. The registry is the one the caller passes, with the socket now closing.
\<close>

definition refuse :: "registry \<Rightarrow> nat \<Rightarrow> string \<Rightarrow> registry \<times> effect list \<times> auth_outcome" where
  "refuse reg cid e =
     (reg\<lparr> reg_clients := AList.update cid CLOSING (reg_clients reg) \<rparr>,
      [Send cid (MError e), Close cid], Refused)"

text \<open>
  The part of the login handler after the \<open>try\<close> block: the position entry, the \<open>init\<close>
  snapshot and the room snapshots for the new connection, and \<open>join\<close> for the others.
\<close>

definition admit ::
  "string \<Rightarrow> game_time \<Rightarrow> obj_inst list \<Rightarrow> npc list \<Rightarrow> registry \<Rightarrow> nat \<Rightarrow> initial_pos
     \<Rightarrow> registry \<times> effect list \<times> auth_outcome" where
  "admit defaultZone g insts npcs reg cid ip =
     (let pos = \<lparr> p_name = ip_name ip, p_x = JNum (ip_x ip), p_y = JNum (ip_y ip),
                  p_roomId = JNum (ip_roomId ip), p_privilege = ip_privilege ip,
                  p_color = ip_color ip, p_inventory = InvFile (ip_inventory ip),
                  p_salt = ip_salt ip, p_hash = ip_hash ip, p_zone = defaultZone \<rparr>;
          reg' = reg\<lparr> reg_positions := AList.update cid pos (reg_positions reg) \<rparr>;
          myZone = defaultZone;
          initObjects = filter (\<lambda>i. o_zone i = myZone \<and> strict_eq (o_roomId i) (JNum (ip_roomId ip)) \<and>
                                     strict_eq (o_pickedUpBy i) JNull) insts;
          initInventory = filter (\<lambda>i. strict_eq (o_pickedUpBy i) (JStr (ip_name ip))) insts;
          initNpcs = filter (\<lambda>n. n_zone n = myZone \<and> n_roomId n = ip_roomId ip) npcs
      in (reg',
          [Send cid (MInit cid (reg_positions reg') (ip_x ip) (ip_y ip) 0 10),
           Send cid (MTimeUpdate (getFormattedTimeMessage g)),
           Send cid (MInitObjects initObjects),
           Send cid (MInitInventory initInventory),
           Send cid (MInitNpcs initNpcs)] @
          map (\<lambda>(otherId, client). Send otherId (MJoin cid ip))
              (filter (\<lambda>(otherId, client). otherId \<noteq> cid \<and> client = OPEN) (reg_clients reg')),
          Authenticated cid))"

text \<open>
  The handler of the first message of a connection. \<open>parsed\<close> is \<open>None\<close> when \<open>JSON.parse\<close>
  throws; \<open>fresh_salt\<close> is the salt \<open>hashPassword\<close> draws; \<open>files\<close> are the player files by name.
  An exception inside the \<open>try\<close> block (a corrupt file, a salt that is not a string) is caught
  and logged, and the handler goes on with \<open>initialPos\<close> as it then stands.
\<close>

definition auth ::
  "(string \<Rightarrow> string \<Rightarrow> string) \<Rightarrow> string \<Rightarrow> string \<Rightarrow> game_time \<Rightarrow> obj_inst list \<Rightarrow> npc list
     \<Rightarrow> (string \<Rightarrow> pfile) \<Rightarrow> registry \<Rightarrow> auth_msg option
     \<Rightarrow> (registry \<times> effect list \<times> auth_outcome) \<times> (string \<Rightarrow> pfile)" where
  "auth kdf fresh_salt defaultZone g insts npcs files reg parsed =
     (case parsed of
        None \<Rightarrow> ((reg, [CloseUnregistered], Refused), files)
      | Some am \<Rightarrow>
          if am_name am = [] \<or> am_password am = [] then ((reg, [CloseUnregistered], Refused), files)
          else
            (let cid = reg_clientId reg;
                 color = colors ! (cid mod length colors);
                 reg1 = reg\<lparr> reg_clientId := cid + 1,
                            reg_nameMap := AList.update cid (am_name am) (reg_nameMap reg),
                            reg_clients := AList.update cid OPEN (reg_clients reg) \<rparr>;
                 initialPos = \<lparr> ip_name = am_name am, ip_x = 400, ip_y = 300, ip_roomId = 0,
                                 ip_color = color, ip_privilege = 0, ip_inventory = [],
                                 ip_salt = JUndef, ip_hash = JUndef \<rparr>
             in case files (am_name am) of
                  Rec d \<Rightarrow>
                    if js_not (pf_salt d) \<or> js_not (pf_hash d)
                    then (refuse reg1 cid ''Missing password data.'', files)
                    else if am_create am
                    then (refuse reg1 cid ''Character already exists.'', files)
                    else (case verifyPassword kdf (am_password am) (pf_salt d) (pf_hash d) of
                            Inl e \<Rightarrow> (admit defaultZone g insts npcs reg1 cid initialPos, files)
                          | Inr ok \<Rightarrow>
                              if \<not> ok then (refuse reg1 cid ''Incorrect password.'', files)
                              else (admit defaultZone g insts npcs reg1 cid
                                      (fill_from_file initialPos d), files))
                | Corrupt \<Rightarrow> (admit defaultZone g insts npcs reg1 cid initialPos, files)
                | NoFile \<Rightarrow>
                    (let ip = initialPos\<lparr> ip_salt := JStr fresh_salt,
                                           ip_hash := JStr (kdf (am_password am) fresh_salt) \<rparr>
                     in if am_create am
                        then (admit defaultZone g insts npcs reg1 cid ip,
                              files(am_name am := Rec (file_of_initial ip)))
                        else (refuse reg1 cid ''Character not found.'', files))))"

text \<open>
  The privilege gate of the edit handlers, \<open>!player || player.privilege < 10\<close> negated.
\<close>

definition privileged :: "positions \<Rightarrow> nat \<Rightarrow> bool" where
  "privileged ps cid = (case map_of ps cid of None \<Rightarrow> False | Some player \<Rightarrow> \<not> p_privilege player < 10)"

text \<open>
  The \<open>update\<close> handler: the caller's position entry takes the coordinates and room the message
  carries, and every other open connection is told. Only these three fields are written.
\<close>

definition update_position :: "positions \<Rightarrow> nat \<Rightarrow> msg \<Rightarrow> positions" where
  "update_position ps cid m =
     (case map_of ps cid of
        None \<Rightarrow> ps
      | Some player \<Rightarrow>
          AList.update cid (player\<lparr> p_x := fld m ''x'', p_y := fld m ''y'', p_roomId := fld m ''roomId'' \<rparr>) ps)"

text \<open>Example login data.\<close>

definition ex_kdf :: "string \<Rightarrow> string \<Rightarrow> string" where
  "ex_kdf password salt = salt @ '':'' @ password"

definition ex_registry :: registry where
  "ex_registry = \<lparr> reg_clientId = 0, reg_clients = [], reg_nameMap = [], reg_positions = [] \<rparr>"

definition ex_file :: player_file where
  "ex_file = \<lparr> pf_x = JNum 64, pf_y = JNum 96, pf_roomId = JNum 3, pf_color = JStr ''blue'',
               pf_inventory = JArr [], pf_privilege = JNum 2, pf_salt = JStr ''s'',
               pf_hash = JStr ''s:pw'' \<rparr>"

definition ex_files :: "string \<Rightarrow> pfile" where
  "ex_files n = (if n = ''Bo'' then Rec ex_file else NoFile)"

definition ex_login :: "registry \<times> effect list \<times> auth_outcome" where
  "ex_login = fst (auth ex_kdf ''salt'' ''0'' \<lparr> tick = 0, hour = 0, day = 0 \<rparr> [] [] ex_files ex_registry
                     (Some \<lparr> am_name = ''Bo'', am_password = ''pw'', am_create = False \<rparr>))"

definition ex_bo :: player where
  "ex_bo = \<lparr> p_name = ''Bo'', p_x = JNum 64, p_y = JNum 96, p_roomId = JNum 3,
             p_privilege = 2, p_color = ''blue'', p_inventory = InvFile [],
             p_salt = JStr ''s'', p_hash = JStr ''s:pw'', p_zone = ''0'' \<rparr>"

section \<open>Room files and the privileged edit handlers\<close>

text \<open>
  Reads on arbitrary JSON values: \<open>v.k\<close> and \<open>v[i]\<close> throw on \<open>null\<close> and \<open>undefined\<close> and give
  \<open>undefined\<close> where the value has no such property.
\<close>

fun js_prop :: "jsval \<Rightarrow> string \<Rightarrow> error + jsval" where
  "js_prop JUndef k = Inl TypeError"
| "js_prop JNull k = Inl TypeError"
| "js_prop (JObj fs) k = Inr (case map_of fs k of None \<Rightarrow> JUndef | Some v \<Rightarrow> v)"
| "js_prop _ k = Inr JUndef"

fun js_index :: "jsval \<Rightarrow> nat \<Rightarrow> error + jsval" where
  "js_index JUndef i = Inl TypeError"
| "js_index JNull i = Inl TypeError"
| "js_index (JArr vs) i = Inr (if i < length vs then vs ! i else JUndef)"
| "js_index (JStr s) i = Inr (if i < length s then JStr [s ! i] else JUndef)"
| "js_index (JObj fs) i = Inr (case map_of fs (show_int (int i)) of None \<Rightarrow> JUndef | Some v \<Rightarrow> v)"
| "js_index _ i = Inr JUndef"

text \<open>
  \<open>obj.k = v\<close> as the written file shows it: \<open>JSON.stringify\<close> drops a property whose value is
  \<open>undefined\<close>.
\<close>

definition store_prop :: "string \<Rightarrow> jsval \<Rightarrow> (string \<times> jsval) list \<Rightarrow> (string \<times> jsval) list" where
  "store_prop k v fs = (if v = JUndef then AList.delete k fs else AList.update k v fs)"

text \<open>
  \<open>tile.k = v\<close> on whatever the tile is: an object takes the property; on a string, number or
  boolean the assignment does nothing, and on an array it is lost when the room is written.
\<close>

fun assign_prop :: "jsval \<Rightarrow> string \<Rightarrow> jsval \<Rightarrow> error + jsval" where
  "assign_prop JUndef k v = Inl TypeError"
| "assign_prop JNull k v = Inl TypeError"
| "assign_prop (JObj fs) k v = Inr (JObj (store_prop k v fs))"
| "assign_prop t k v = Inr t"

fun delete_prop :: "jsval \<Rightarrow> string \<Rightarrow> error + jsval" where
  "delete_prop JUndef k = Inl TypeError"
| "delete_prop JNull k = Inl TypeError"
| "delete_prop (JObj fs) k = Inr (JObj (AList.delete k fs))"
| "delete_prop t k = Inr t"

text \<open>Putting a changed tile back at \<open>row[i]\<close>.\<close>

fun put_index :: "jsval \<Rightarrow> nat \<Rightarrow> jsval \<Rightarrow> jsval" where
  "put_index (JArr vs) i t = JArr (vs[i := t])"
| "put_index (JObj fs) i t = JObj (AList.update (show_int (int i)) t fs)"
| "put_index row i t = row"

text \<open>
  \<open>parseInt(v, 10)\<close>: the value as a string, leading white space skipped, an optional sign, then
  the longest run of decimal digits; \<open>None\<close> is \<open>NaN\<close>.
\<close>

definition is_space :: "char \<Rightarrow> bool" where
  "is_space c \<longleftrightarrow> c \<in> set [CHR '' '', CHR 0x09, CHR 0x0A, CHR 0x0B, CHR 0x0C, CHR 0x0D]"

definition is_digit :: "char \<Rightarrow> bool" where
  "is_digit c \<longleftrightarrow> (48::nat) \<le> of_char c \<and> of_char c \<le> (57::nat)"

definition digits_value :: "string \<Rightarrow> int" where
  "digits_value ds = foldl (\<lambda>acc c. 10 * acc + (int (of_char c) - 48)) 0 ds"

definition parse_int :: "string \<Rightarrow> int option" where
  "parse_int s =
     (let s1 = dropWhile is_space s;
          sgn = (case s1 of c # r \<Rightarrow> if c = CHR ''-'' then (-1 :: int) else 1 | [] \<Rightarrow> 1);
          s2 = (case s1 of c # r \<Rightarrow> if c = CHR ''-'' \<or> c = CHR ''+'' then r else s1 | [] \<Rightarrow> s1);
          ds = takeWhile is_digit s2
      in if ds = [] then None else Some (sgn * digits_value ds))"

definition js_parseInt :: "jsval \<Rightarrow> error + int option" where
  "js_parseInt v =
     (case v of
        JNum n \<Rightarrow> Inr (Some n)
      | JUndef \<Rightarrow> Inr None
      | JNull \<Rightarrow> Inr None
      | _ \<Rightarrow> (case js_toString v of Inl e \<Rightarrow> Inl e | Inr s \<Rightarrow> Inr (parse_int s)))"

datatype 'a validation = Invalid string | Valid 'a

definition validateRoomId :: "jsval \<Rightarrow> error + int validation" where
  "validateRoomId roomId =
     (case js_parseInt roomId of
        Inl e \<Rightarrow> Inl e
      | Inr None \<Rightarrow> Inr (Invalid ''Invalid room ID'')
      | Inr (Some parsed) \<Rightarrow>
          if parsed < 0 then Inr (Invalid ''Invalid room ID'')
          else if CHR ''.'' \<in> set (show_int parsed) \<or> CHR ''/'' \<in> set (show_int parsed) \<or>
                  CHR 0x5C \<in> set (show_int parsed)
          then Inr (Invalid ''Invalid room ID format'')
          else Inr (Valid parsed))"

text \<open>\<open>Number.isInteger\<close> and the numeric comparisons of the validators.\<close>

fun isInteger :: "jsval \<Rightarrow> bool" where
  "isInteger (JNum n) = True"
| "isInteger _ = False"

fun num_of :: "jsval \<Rightarrow> int" where
  "num_of (JNum n) = n"
| "num_of _ = 0"

text \<open>The terrain pattern \<open>/^[a-zA-Z0-9_-]+$/\<close>.\<close>

definition terrain_char :: "char \<Rightarrow> bool" where
  "terrain_char c \<longleftrightarrow>
     ((97::nat) \<le> of_char c \<and> of_char c \<le> (122::nat)) \<or>
     ((65::nat) \<le> of_char c \<and> of_char c \<le> (90::nat)) \<or>
     ((48::nat) \<le> of_char c \<and> of_char c \<le> (57::nat)) \<or>
     c = CHR ''_'' \<or> c = CHR ''-''"

definition terrain_pattern :: "string \<Rightarrow> bool" where
  "terrain_pattern s \<longleftrightarrow> s \<noteq> [] \<and> list_all terrain_char s"

definition terrain_rejected :: "jsval \<Rightarrow> bool" where
  "terrain_rejected t \<longleftrightarrow>
     truthy t \<and> (case t of JStr s \<Rightarrow> \<not> terrain_pattern s | _ \<Rightarrow> True)"

text \<open>\<open>roomJson.tiles[y]\<close> and \<open>roomJson.tiles[y][x]\<close> for validated (integer, non-negative) indices.\<close>

definition row_at :: "room \<Rightarrow> nat \<Rightarrow> jsval" where
  "row_at r y = (if y < length (rm_tiles r) then rm_tiles r ! y else JUndef)"

definition tile_at :: "room \<Rightarrow> nat \<Rightarrow> nat \<Rightarrow> error + jsval" where
  "tile_at r x y = js_index (row_at r y) x"

definition validateEditRequest :: "msg \<Rightarrow> room \<Rightarrow> unit validation" where
  "validateEditRequest m roomJson =
     (if \<not> isInteger (fld m ''x'') \<or> \<not> isInteger (fld m ''y'')
      then Invalid ''Coordinates must be integers''
      else if num_of (fld m ''x'') < 0 \<or> num_of (fld m ''y'') < 0
      then Invalid ''Coordinates must be non-negative''
      else if js_not (row_at roomJson (nat (num_of (fld m ''y'')))) \<or>
              (case tile_at roomJson (nat (num_of (fld m ''x''))) (nat (num_of (fld m ''y''))) of
                 Inl e \<Rightarrow> True | Inr t \<Rightarrow> js_not t)
      then Invalid ''Coordinates out of room bounds''
      else if terrain_rejected (fld m ''terrain'')
      then Invalid ''Invalid terrain value''
      else Valid ())"

definition validateResizeRequest :: "msg \<Rightarrow> unit validation" where
  "validateResizeRequest m =
     (if \<not> isInteger (fld m ''width'') \<or> \<not> isInteger (fld m ''height'')
      then Invalid ''Dimensions must be integers''
      else if num_of (fld m ''width'') < 1 \<or> num_of (fld m ''height'') < 1
      then Invalid ''Dimensions must be at least 1x1''
      else if num_of (fld m ''width'') > 100 \<or> num_of (fld m ''height'') > 100
      then Invalid ''Dimensions too large (max 100x100)''
      else Valid ())"

text \<open>The loop of \<open>validateTileExits\<close> over the entries of the exits object.\<close>

fun validate_exit_entries :: "(string \<times> jsval) list \<Rightarrow> unit validation" where
  "validate_exit_entries [] = Valid ()"
| "validate_exit_entries ((direction, exit) # es) =
     (if direction \<notin> set [''up'', ''down'', ''left'', ''right'']
      then Invalid (''Invalid exit direction: '' @ direction)
      else case exit of
        JObj fs \<Rightarrow>
          (let roomId = (case map_of fs ''roomId'' of None \<Rightarrow> JUndef | Some v \<Rightarrow> v);
               ex = (case map_of fs ''x'' of None \<Rightarrow> JUndef | Some v \<Rightarrow> v);
               ey = (case map_of fs ''y'' of None \<Rightarrow> JUndef | Some v \<Rightarrow> v)
           in if \<not> isInteger roomId \<or> \<not> isInteger ex \<or> \<not> isInteger ey
              then Invalid ''Exit coordinates must be integers''
              else if num_of roomId < 0 \<or> num_of ex < 0 \<or> num_of ey < 0
              then Invalid ''Exit coordinates must be non-negative''
              else validate_exit_entries es)
      | JArr vs \<Rightarrow> Invalid ''Exit coordinates must be integers''
      | _ \<Rightarrow> Invalid ''Exit must be an object'')"

definition validateTileExits :: "jsval \<Rightarrow> unit validation" where
  "validateTileExits tileExits =
     (case tileExits of
        JNull \<Rightarrow> Valid ()
      | JUndef \<Rightarrow> Valid ()
      | JObj es \<Rightarrow> validate_exit_entries es
      | _ \<Rightarrow> Invalid ''Tile exits must be an object'')"

text \<open>
  The world manifest is data of the running server: \<open>zones k\<close> is \<open>worldData.zones[k]\<close>. The room
  files are keyed by the zone's path and the room id; \<open>None\<close> is a file that cannot be read or
  parsed. \<open>write_ok\<close> says whether \<open>safeFileWrite\<close> succeeds; a failed write is taken to leave
  the file as it was.
\<close>

type_synonym room_files = "string \<times> int \<Rightarrow> room option"

definition zone_of_msg :: "(jsval \<Rightarrow> jsval) \<Rightarrow> msg \<Rightarrow> jsval" where
  "zone_of_msg zones m = zones (if fld m ''zoneId'' \<noteq> JUndef then fld m ''zoneId'' else JNum 0)"

text \<open>\<open>path.join(worldDir, zoneDef.path, ...)\<close> throws unless the path is a string.\<close>

definition zone_path :: "jsval \<Rightarrow> error + string" where
  "zone_path zoneDef =
     (case js_prop zoneDef ''path'' of
        Inl e \<Rightarrow> Inl e
      | Inr (JStr p) \<Rightarrow> Inr p
      | Inr _ \<Rightarrow> Inl TypeError)"

definition broadcast_all :: "clients \<Rightarrow> server_msg \<Rightarrow> effect list" where
  "broadcast_all cs m = map (\<lambda>(i, r). Send i m) (filter (\<lambda>(i, r). r = OPEN) cs)"

definition reply_error :: "nat \<Rightarrow> string \<Rightarrow> effect list" where
  "reply_error cid e = [Send cid (MError e)]"

text \<open>
  The steps the three handlers share: the privilege gate, the room id, then (after the
  handler's own early validation \<open>early\<close>) the zone and the room file. \<open>body\<close> is what the handler
  does with the sanitized room id, the file's key and the parsed room.
\<close>

definition with_room ::
  "(jsval \<Rightarrow> jsval) \<Rightarrow> clients \<Rightarrow> positions \<Rightarrow> room_files \<Rightarrow> nat \<Rightarrow> msg \<Rightarrow> unit validation
     \<Rightarrow> (int \<Rightarrow> string \<times> int \<Rightarrow> room \<Rightarrow> room_files \<times> effect list)
     \<Rightarrow> room_files \<times> effect list" where
  "with_room zones cs ps files cid m early body =
     (if \<not> privileged ps cid then (files, reply_error cid ''Insufficient privileges'')
      else case validateRoomId (fld m ''roomId'') of
        Inl e \<Rightarrow> (files, catch_reply cs cid)
      | Inr (Invalid e) \<Rightarrow> (files, reply_error cid e)
      | Inr (Valid roomId) \<Rightarrow>
          (case early of
             Invalid e \<Rightarrow> (files, reply_error cid e)
           | Valid _ \<Rightarrow>
               (let zoneDef = zone_of_msg zones m in
                if js_not zoneDef then (files, reply_error cid ''Unknown zone'')
                else case zone_path zoneDef of
                  Inl e \<Rightarrow> (files, catch_reply cs cid)
                | Inr zp \<Rightarrow>
                    (case files (zp, roomId) of
                       None \<Rightarrow> (files, reply_error cid ''Failed to load room data'')
                     | Some roomJson \<Rightarrow> body roomId (zp, roomId) roomJson))))"

text \<open>Writing the changed room and telling every open connection, or reporting the failed write.\<close>

definition persist_and_broadcast ::
  "bool \<Rightarrow> clients \<Rightarrow> room_files \<Rightarrow> nat \<Rightarrow> string \<times> int \<Rightarrow> room \<Rightarrow> string \<Rightarrow> server_msg
     \<Rightarrow> room_files \<times> effect list" where
  "persist_and_broadcast write_ok cs files cid key roomJson failure note =
     (if \<not> write_ok then (files, reply_error cid failure)
      else (files(key \<mapsto> roomJson), broadcast_all cs note))"

text \<open>\<open>roomJson.tiles[y][x] = tile\<close> written back into the room.\<close>

definition put_tile :: "room \<Rightarrow> nat \<Rightarrow> nat \<Rightarrow> jsval \<Rightarrow> room" where
  "put_tile r x y t = r\<lparr> rm_tiles := (rm_tiles r)[y := put_index (rm_tiles r ! y) x t] \<rparr>"

definition edit_tile ::
  "(jsval \<Rightarrow> jsval) \<Rightarrow> bool \<Rightarrow> clients \<Rightarrow> positions \<Rightarrow> room_files \<Rightarrow> nat \<Rightarrow> msg
     \<Rightarrow> room_files \<times> effect list" where
  "edit_tile zones write_ok cs ps files cid m =
     with_room zones cs ps files cid m (Valid ())
       (\<lambda>roomId key roomJson.
          case validateEditRequest m roomJson of
            Invalid e \<Rightarrow> (files, reply_error cid e)
          | Valid _ \<Rightarrow>
              (let x = nat (num_of (fld m ''x'')); y = nat (num_of (fld m ''y'')) in
               case tile_at roomJson x y of
                 Inl e \<Rightarrow> (files, catch_reply cs cid)
               | Inr tile \<Rightarrow>
                   (case assign_prop tile ''terrain'' (fld m ''terrain'') of
                      Inl e \<Rightarrow> (files, catch_reply cs cid)
                    | Inr tile' \<Rightarrow>
                        persist_and_broadcast write_ok cs files cid key (put_tile roomJson x y tile')
                          ''Failed to save room changes'' (MRoomUpdated roomId m))))"

definition edit_tile_exits ::
  "(jsval \<Rightarrow> jsval) \<Rightarrow> bool \<Rightarrow> clients \<Rightarrow> positions \<Rightarrow> room_files \<Rightarrow> nat \<Rightarrow> msg
     \<Rightarrow> room_files \<times> effect list" where
  "edit_tile_exits zones write_ok cs ps files cid m =
     with_room zones cs ps files cid m (validateTileExits (fld m ''tileExits''))
       (\<lambda>roomId key roomJson.
          case validateEditRequest m roomJson of
            Invalid e \<Rightarrow> (files, reply_error cid e)
          | Valid _ \<Rightarrow>
              (let x = nat (num_of (fld m ''x'')); y = nat (num_of (fld m ''y'')) in
               case tile_at roomJson x y of
                 Inl e \<Rightarrow> (files, catch_reply cs cid)
               | Inr tile \<Rightarrow>
                   (case (if fld m ''tileExits'' = JNull then delete_prop tile ''tileExits''
                          else assign_prop tile ''tileExits'' (fld m ''tileExits'')) of
                      Inl e \<Rightarrow> (files, catch_reply cs cid)
                    | Inr tile' \<Rightarrow>
                        persist_and_broadcast write_ok cs files cid key (put_tile roomJson x y tile')
                          ''Failed to save tile exits'' (MRoomUpdated roomId m))))"

text \<open>
  Resizing. \<open>arr.length = n\<close> truncates, or pads with holes, which the written file shows as
  \<open>null\<close>. A row that is not an array makes \<open>row.push\<close> throw.
\<close>

definition void_tile :: jsval where
  "void_tile = JObj [(''terrain'', JStr ''void''), (''tileExits'', JObj [])]"

definition set_length :: "nat \<Rightarrow> jsval list \<Rightarrow> jsval list" where
  "set_length n vs = take n vs @ replicate (n - length vs) JNull"

definition resize_row :: "int \<Rightarrow> int \<Rightarrow> jsval \<Rightarrow> error + jsval" where
  "resize_row newW oldW row =
     (if newW > oldW
      then (case row of JArr ts \<Rightarrow> Inr (JArr (ts @ replicate (nat (newW - oldW)) void_tile))
            | _ \<Rightarrow> Inl TypeError)
      else if newW < oldW
      then (case row of
              JArr ts \<Rightarrow> Inr (JArr (set_length (nat newW) ts))
            | JObj fs \<Rightarrow> Inr (JObj (AList.update ''length'' (JNum newW) fs))
            | JNull \<Rightarrow> Inl TypeError
            | JUndef \<Rightarrow> Inl TypeError
            | _ \<Rightarrow> Inr row)
      else Inr row)"

fun resize_rows :: "int \<Rightarrow> int \<Rightarrow> jsval list \<Rightarrow> error + jsval list" where
  "resize_rows newW oldW [] = Inr []"
| "resize_rows newW oldW (row # rows) =
     (case resize_row newW oldW row of
        Inl e \<Rightarrow> Inl e
      | Inr row' \<Rightarrow> (case resize_rows newW oldW rows of Inl e \<Rightarrow> Inl e | Inr rows' \<Rightarrow> Inr (row' # rows')))"

definition resize_room ::
  "(jsval \<Rightarrow> jsval) \<Rightarrow> bool \<Rightarrow> clients \<Rightarrow> positions \<Rightarrow> room_files \<Rightarrow> nat \<Rightarrow> msg
     \<Rightarrow> room_files \<times> effect list" where
  "resize_room zones write_ok cs ps files cid m =
     with_room zones cs ps files cid m (validateResizeRequest m)
       (\<lambda>roomId key roomJson.
          (let newW = num_of (fld m ''width''); newH = num_of (fld m ''height'');
               oldW = rm_width roomJson; oldH = rm_height roomJson
           in case resize_rows newW oldW (rm_tiles roomJson) of
                Inl e \<Rightarrow> (files, catch_reply cs cid)
              | Inr rows \<Rightarrow>
                  (let rows' = (if newH > oldH
                                then rows @ replicate (nat (newH - oldH))
                                              (JArr (replicate (nat newW) void_tile))
                                else if newH < oldH then set_length (nat newH) rows
                                else rows)
                   in persist_and_broadcast write_ok cs files cid key
                        (roomJson\<lparr> rm_tiles := rows', rm_width := newW, rm_height := newH \<rparr>)
                        ''Failed to save room resize'' (MRoomResized roomId newW newH))))"

text \<open>A 2 x 2 room of zone 0 for the concrete runs, and a privileged editor on connection 0.\<close>

definition ex_zones :: "jsval \<Rightarrow> jsval" where
  "ex_zones k = (if k = JNum 0 \<or> k = JStr ''0'' then JObj [(''id'', JNum 0), (''path'', JStr ''zones/beginning'')]
                 else JUndef)"

definition ex_tile :: "string \<Rightarrow> jsval" where
  "ex_tile t = JObj [(''terrain'', JStr t), (''layers'', JArr [])]"

definition ex_room :: room where
  "ex_room = \<lparr> rm_width = 2, rm_height = 2,
               rm_tiles = [JArr [ex_tile ''grass'', ex_tile ''grass''], JArr [ex_tile ''sand'', ex_tile ''void'']],
               rm_other = [(''id'', JNum 0), (''exits'', JArr [])] \<rparr>"

definition ex_room_files :: room_files where
  "ex_room_files key = (if key = (''zones/beginning'', 0) then Some ex_room else None)"

definition ex_editors :: positions where
  "ex_editors = [(0, (ex_player ''Ava'')\<lparr> p_privilege := 10 \<rparr>), (1, ex_player ''Bo'')]"

text \<open>
  A handler result is fail-closed when an error envelope in it means that nothing else was
  sent, that it went to the requester, and that no room file changed.
\<close>

definition fail_closed :: "clients \<Rightarrow> room_files \<Rightarrow> nat \<Rightarrow> room_files \<times> effect list \<Rightarrow> bool" where
  "fail_closed cs files cid res \<longleftrightarrow>
     (\<forall>c e. Send c (MError e) \<in> set (snd res) \<longrightarrow>
        fst res = files \<and> c = cid \<and> snd res = [Send cid (MError e)])"

text \<open>Two edit requests for tile (1, 0) of the example room.\<close>

definition ex_blank_edit :: msg where
  "ex_blank_edit = [(''type'', JStr ''edit-tile''), (''roomId'', JNum 0), (''x'', JNum 1),
                    (''y'', JNum 0), (''terrain'', JStr [])]"

definition ex_stone_edit :: msg where
  "ex_stone_edit = [(''type'', JStr ''edit-tile''), (''roomId'', JNum 0), (''x'', JNum 1),
                    (''y'', JNum 0), (''terrain'', JStr ''stone'')]"

section \<open>Pathfinder\<close>

text \<open>
  \<open>findPath(start, end, tiles)\<close>: breadth-first search with a queue of whole paths and a set of
  visited cell keys (the key \<open>"x,y"\<close> of a cell is modelled by the cell itself). Coordinates are
  integers. The rows and tiles are read as the JavaScript does: a missing row or tile makes the
  read of \<open>terrain\<close> throw.
\<close>

type_synonym coord = "int \<times> int"

text \<open>\<open>v.length\<close>, and \<open>n >= bound\<close> with the bound coerced to a number.\<close>

fun js_length :: "jsval \<Rightarrow> error + jsval" where
  "js_length JUndef = Inl TypeError"
| "js_length JNull = Inl TypeError"
| "js_length (JArr vs) = Inr (JNum (int (length vs)))"
| "js_length (JStr s) = Inr (JNum (int (length s)))"
| "js_length (JObj fs) = Inr (case map_of fs ''length'' of None \<Rightarrow> JUndef | Some v \<Rightarrow> v)"
| "js_length _ = Inr JUndef"

definition str_number :: "string \<Rightarrow> int option" where
  "str_number s =
     (let t = rev (dropWhile is_space (rev (dropWhile is_space s)));
          sgn = (case t of c # r \<Rightarrow> if c = CHR ''-'' then (-1 :: int) else 1 | [] \<Rightarrow> 1);
          ds = (case t of c # r \<Rightarrow> if c = CHR ''-'' \<or> c = CHR ''+'' then r else t | [] \<Rightarrow> t)
      in if t = [] then Some 0
         else if ds \<noteq> [] \<and> list_all is_digit ds then Some (sgn * digits_value ds)
         else None)"

definition to_number :: "jsval \<Rightarrow> error + int option" where
  "to_number v =
     (case v of
        JUndef \<Rightarrow> Inr None
      | JNull \<Rightarrow> Inr (Some 0)
      | JBool b \<Rightarrow> Inr (Some (if b then 1 else 0))
      | JNum n \<Rightarrow> Inr (Some n)
      | JStr s \<Rightarrow> Inr (str_number s)
      | _ \<Rightarrow> (case js_toString v of Inl e \<Rightarrow> Inl e | Inr s \<Rightarrow> Inr (str_number s)))"

definition beyond :: "int \<Rightarrow> jsval \<Rightarrow> error + bool" where
  "beyond n bound =
     (case to_number bound of Inl e \<Rightarrow> Inl e | Inr None \<Rightarrow> Inr False | Inr (Some c) \<Rightarrow> Inr (n \<ge> c))"

text \<open>\<open>tiles[ny][nx].terrain\<close> for a cell within the row count.\<close>

definition tile_terrain :: "jsval list \<Rightarrow> int \<Rightarrow> int \<Rightarrow> error + jsval" where
  "tile_terrain tiles nx ny =
     (case js_index (tiles ! nat ny) (nat nx) of
        Inl e \<Rightarrow> Inl e
      | Inr tile \<Rightarrow> js_prop tile ''terrain'')"

definition dirs :: "coord list" where
  "dirs = [(1, 0), (-1, 0), (0, 1), (0, -1)]"

text \<open>
  The checks of the inner loop on one neighbour: \<open>Inr False\<close> where the source says \<open>continue\<close>,
  \<open>Inr True\<close> where it marks the cell visited and enqueues the extended path.
\<close>

definition probe :: "jsval list \<Rightarrow> jsval \<Rightarrow> coord list \<Rightarrow> coord \<Rightarrow> error + bool" where
  "probe tiles cols visited n =
     (let nx = fst n; ny = snd n in
      if nx < 0 \<or> ny < 0 then Inr False
      else case beyond nx cols of
        Inl e \<Rightarrow> Inl e
      | Inr True \<Rightarrow> Inr False
      | Inr False \<Rightarrow>
          if ny \<ge> int (length tiles) then Inr False
          else if (nx, ny) \<in> set visited then Inr False
          else case tile_terrain tiles nx ny of
            Inl e \<Rightarrow> Inl e
          | Inr terrain \<Rightarrow> Inr (\<not> strict_eq terrain (JStr ''void'')))"

fun expand ::
  "jsval list \<Rightarrow> jsval \<Rightarrow> coord list \<Rightarrow> coord \<Rightarrow> coord list \<Rightarrow> coord list \<Rightarrow> coord list list
     \<Rightarrow> error + coord list \<times> coord list list" where
  "expand tiles cols path c [] visited queue = Inr (visited, queue)"
| "expand tiles cols path c (d # ds) visited queue =
     (let n = (fst c + fst d, snd c + snd d) in
      case probe tiles cols visited n of
        Inl e \<Rightarrow> Inl e
      | Inr False \<Rightarrow> expand tiles cols path c ds visited queue
      | Inr True \<Rightarrow> expand tiles cols path c ds (visited @ [n]) (queue @ [path @ [n]]))"

text \<open>
  The cells whose terrain can be read at all. Only these are ever marked visited, and there
  are finitely many of them, which is why the search terminates.
\<close>

definition addressable :: "jsval list \<Rightarrow> coord set" where
  "addressable tiles =
     {(nx, ny). 0 \<le> nx \<and> 0 \<le> ny \<and> ny < int (length tiles) \<and> (\<exists>t. tile_terrain tiles nx ny = Inr t)}"

lemma of_char_digit: "n < 10 \<Longrightarrow> (of_char (''0123456789'' ! n) :: nat) = 48 + n"
proof -
  assume "n < 10"
  then have "n \<in> {0, 1, 2, 3, 4, 5, 6, 7, 8, 9}" by auto
  then show ?thesis by auto
qed

lemma digits_value_snoc: "digits_value (ds @ [c]) = 10 * digits_value ds + (int (of_char c) - 48)"
  by (simp add: digits_value_def)

lemma digits_value_digits: "digits_value (digits n) = int n"
proof (induction n rule: digits.induct)
  case (1 n)
  show ?case
  proof (cases "n < 10")
    case True
    then show ?thesis
      by (subst digits.simps) (simp add: digits_value_def of_char_digit)
  next
    case False
    have "digits n = digits (n div 10) @ [''0123456789'' ! (n mod 10)]"
      using False by (subst digits.simps) simp
    then show ?thesis
      using 1[OF False] by (simp add: digits_value_snoc of_char_digit del: of_nat_div)
         (simp add: zdiv_int zmod_int)
  qed
qed

lemma show_int_inj_nonneg: "0 \<le> a \<Longrightarrow> 0 \<le> b \<Longrightarrow> show_int a = show_int b \<Longrightarrow> a = b"
  by (metis digits_value_digits int_nat_eq not_less show_int_def)


lemma finite_nonneg_below: "finite {nx::int. 0 \<le> nx \<and> nat nx < n}"
proof -
  have "{nx::int. 0 \<le> nx \<and> nat nx < n} \<subseteq> {0..<int n}" by auto
  then show ?thesis by (rule finite_subset) simp
qed

lemma finite_row_cells:
  "finite {nx::int. 0 \<le> nx \<and> (\<exists>tile t. js_index row (nat nx) = Inr tile \<and> js_prop tile ''terrain'' = Inr t)}"
  (is "finite ?X")
proof (cases row)
  case (JArr vs)
  have "?X \<subseteq> {nx. 0 \<le> nx \<and> nat nx < length vs}"
    using JArr by (auto split: if_splits)
  then show ?thesis using finite_nonneg_below by (rule finite_subset)
next
  case (JStr s)
  have "?X \<subseteq> {nx. 0 \<le> nx \<and> nat nx < length s}"
    using JStr by (auto split: if_splits)
  then show ?thesis using finite_nonneg_below by (rule finite_subset)
next
  case (JObj fs)
  have inj: "inj_on show_int {nx. 0 \<le> nx}"
    by (rule inj_onI) (auto dest: show_int_inj_nonneg)
  have "?X \<subseteq> show_int -` (fst ` set fs) \<inter> {nx. 0 \<le> nx}"
  proof
    fix nx assume "nx \<in> ?X"
    then obtain tile t where nx: "0 \<le> nx" and i: "js_index row (nat nx) = Inr tile"
      and p: "js_prop tile ''terrain'' = Inr t"
      by blast
    from p have "tile \<noteq> JUndef" by auto
    with i JObj nx have "map_of fs (show_int nx) = Some tile"
      by (auto split: option.splits)
    then have "show_int nx \<in> fst ` set fs"
      by (auto dest!: map_of_SomeD intro: rev_image_eqI)
    with nx show "nx \<in> show_int -` (fst ` set fs) \<inter> {nx. 0 \<le> nx}" by simp
  qed
  moreover have "finite (show_int -` (fst ` set fs) \<inter> {nx. 0 \<le> nx})"
    by (rule finite_vimage_IntI[OF _ inj]) simp
  ultimately show ?thesis by (rule finite_subset)
qed auto

lemma finite_addressable: "finite (addressable tiles)"
proof -
  let ?row = "\<lambda>ny. {nx. 0 \<le> nx \<and> (\<exists>tile t. js_index (tiles ! nat ny) (nat nx) = Inr tile \<and>
                                          js_prop tile ''terrain'' = Inr t)}"
  have "addressable tiles \<subseteq> (\<Union>ny \<in> {0..<int (length tiles)}. (\<lambda>nx. (nx, ny)) ` ?row ny)"
  proof
    fix c assume c: "c \<in> addressable tiles"
    obtain nx ny where [simp]: "c = (nx, ny)" by (cases c)
    from c obtain t where b: "0 \<le> nx" "0 \<le> ny" "ny < int (length tiles)"
      and t: "tile_terrain tiles nx ny = Inr t"
      by (auto simp: addressable_def)
    from t obtain tile where "js_index (tiles ! nat ny) (nat nx) = Inr tile" "js_prop tile ''terrain'' = Inr t"
      by (auto simp: tile_terrain_def split: sum.splits)
    with b have "nx \<in> ?row ny" by blast
    then have "(nx, ny) \<in> (\<lambda>nx. (nx, ny)) ` ?row ny" by (rule imageI)
    moreover have "ny \<in> {0..<int (length tiles)}" using b by simp
    ultimately show "c \<in> (\<Union>ny \<in> {0..<int (length tiles)}. (\<lambda>nx. (nx, ny)) ` ?row ny)"
      unfolding \<open>c = (nx, ny)\<close> by (rule UN_I[rotated])
  qed
  moreover have "finite (\<Union>ny \<in> {0..<int (length tiles)}. (\<lambda>nx. (nx, ny)) ` ?row ny)"
    using finite_row_cells by auto
  ultimately show ?thesis by (rule finite_subset)
qed

lemma probe_True:
  "probe tiles cols visited n = Inr True \<Longrightarrow> n \<in> addressable tiles \<and> n \<notin> set visited"
  by (cases n) (auto simp: probe_def Let_def addressable_def split: if_splits sum.splits bool.splits)

lemma expand_grows:
  "expand tiles cols path c ds visited queue = Inr (visited', queue') \<Longrightarrow>
     \<exists>ns. visited' = visited @ ns \<and> queue' = queue @ map (\<lambda>n. path @ [n]) ns \<and>
          distinct ns \<and> set ns \<inter> set visited = {} \<and> set ns \<subseteq> addressable tiles"
proof (induction ds arbitrary: visited queue)
  case Nil
  then show ?case by simp
next
  case (Cons d ds)
  let ?n = "(fst c + fst d, snd c + snd d)"
  from Cons.prems obtain b where b: "probe tiles cols visited ?n = Inr b"
    by (auto simp: Let_def split: sum.splits)
  show ?case
  proof (cases b)
    case True
    with b Cons.prems
    have "expand tiles cols path c ds (visited @ [?n]) (queue @ [path @ [?n]]) = Inr (visited', queue')"
      by (simp add: Let_def)
    from Cons.IH[OF this] obtain ns where ns: "visited' = (visited @ [?n]) @ ns"
      "queue' = (queue @ [path @ [?n]]) @ map (\<lambda>n. path @ [n]) ns"
      "distinct ns" "set ns \<inter> set (visited @ [?n]) = {}" "set ns \<subseteq> addressable tiles"
      by blast
    from b True have "probe tiles cols visited ?n = Inr True" by simp
    from probe_True[OF this] have n: "?n \<in> addressable tiles" "?n \<notin> set visited"
      by simp_all
    have "visited' = visited @ (?n # ns) \<and> queue' = queue @ map (\<lambda>n. path @ [n]) (?n # ns) \<and>
          distinct (?n # ns) \<and> set (?n # ns) \<inter> set visited = {} \<and> set (?n # ns) \<subseteq> addressable tiles"
      using ns n by auto
    then show ?thesis by blast
  next
    case False
    with b Cons.prems
    have "expand tiles cols path c ds visited queue = Inr (visited', queue')"
      by (simp add: Let_def)
    from Cons.IH[OF this] show ?thesis .
  qed
qed


lemma expand_measure:
  assumes "expand tiles cols path c ds visited queue = Inr (visited', queue')"
  shows "2 * card (addressable tiles - set visited') + length queue'
         \<le> 2 * card (addressable tiles - set visited) + length queue"
proof -
  from expand_grows[OF assms] obtain ns where ns: "visited' = visited @ ns"
    "queue' = queue @ map (\<lambda>n. path @ [n]) ns" "distinct ns" "set ns \<inter> set visited = {}"
    "set ns \<subseteq> addressable tiles"
    by blast
  let ?A = "addressable tiles - set visited"
  have sub: "set ns \<subseteq> ?A" using ns by auto
  have fin: "finite ?A" using finite_addressable by simp
  have "addressable tiles - set visited' = ?A - set ns"
    using ns by auto
  then have "card (addressable tiles - set visited') = card ?A - length ns"
    using sub fin ns(3) by (simp add: card_Diff_subset distinct_card)
  moreover have "length ns \<le> card ?A"
    using card_mono[OF fin sub] ns(3) by (simp add: distinct_card)
  ultimately show ?thesis using ns(2) by simp
qed

text \<open>The \<open>while (queue.length)\<close> loop.\<close>

function bfs_loop ::
  "jsval list \<Rightarrow> jsval \<Rightarrow> coord \<Rightarrow> coord list \<Rightarrow> coord list list \<Rightarrow> error + coord list option" where
  "bfs_loop tiles cols goal visited queue =
     (case queue of
        [] \<Rightarrow> Inr None
      | path # rest \<Rightarrow>
          (if path = [] then Inl TypeError
           else if last path = goal then Inr (Some path)
           else (case expand tiles cols path (last path) dirs visited rest of
                   Inl e \<Rightarrow> Inl e
                 | Inr (visited', queue') \<Rightarrow> bfs_loop tiles cols goal visited' queue')))"
  by pat_completeness auto
termination
proof (relation "measure (\<lambda>(tiles, cols, goal, visited, queue).
                   2 * card (addressable tiles - set visited) + length queue)", goal_cases)
  case 1
  then show ?case by simp
next
  case (2 tiles cols goal visited queue path rest x visited' queue')
  then have "expand tiles cols path (last path) dirs visited rest = Inr (visited', queue')"
    by simp
  from expand_measure[OF this] 2 show ?case by auto
qed

declare bfs_loop.simps [simp del]

definition findPath :: "coord \<Rightarrow> coord \<Rightarrow> jsval list \<Rightarrow> error + coord list option" where
  "findPath start goal tiles =
     (case tiles of
        [] \<Rightarrow> Inl TypeError
      | row0 # _ \<Rightarrow>
          (case js_length row0 of
             Inl e \<Rightarrow> Inl e
           | Inr cols \<Rightarrow> bfs_loop tiles cols goal [start] [[start]]))"

section \<open>What the pathfinder is to compute\<close>
















text \<open>Three small grids: one with a wall tile, one open, one cut in two.\<close>

definition ex_g :: jsval where
  "ex_g = JObj [(''terrain'', JStr ''grass'')]"



definition ex_open :: "jsval list" where
  "ex_open = [JArr [ex_g, ex_g], JArr [ex_g, ex_g]]"


section \<open>NPC instances, roaming and movement timers\<close>

text \<open>
  An NPC template and an NPC definition of a room file, as the regeneration at boot reads them.
  A template without a roam policy has \<open>t_roam = None\<close> (\<open>template.roam || null\<close>).
\<close>

record npc_template =
  t_id :: jsval
  t_name :: jsval
  t_sprite :: jsval
  t_roam :: "roam option"

record npc_def =
  nd_typeId :: jsval
  nd_x :: int
  nd_y :: int

text \<open>
  The regeneration of the instances from the room definitions, over the definitions in scan
  order, each with the zone key and room id of its file. \<open>ids k\<close> is the \<open>k\<close>-th id drawn from
  \<open>crypto.randomBytes\<close>. The pushed object has no \<open>movePath\<close>, \<open>moveStartTick\<close> or
  \<open>moveDuration\<close> property.
\<close>

fun regenerate ::
  "npc_template list \<Rightarrow> (nat \<Rightarrow> string) \<Rightarrow> nat \<Rightarrow> (string \<times> int \<times> npc_def) list \<Rightarrow> npc list" where
  "regenerate templates ids k [] = []"
| "regenerate templates ids k ((zoneKey, rid, d) # rest) =
     (case find (\<lambda>t. strict_eq (t_id t) (nd_typeId d)) templates of
        None \<Rightarrow> regenerate templates ids k rest
      | Some template \<Rightarrow>
          \<lparr> n_instanceId = ids k, n_typeId = t_id template, n_name = t_name template,
            n_sprite = t_sprite template, n_zone = zoneKey, n_roomId = rid,
            n_x = nd_x d, n_y = nd_y d, n_roam = t_roam template, n_lastRoamTick = 0,
            n_movePath = None, n_moveStartTick = None, n_moveDuration = None \<rparr>
          # regenerate templates ids (k + 1) rest)"

text \<open>
  The loop that ensures the movement fields: a field is written only when the instance has no
  such property (\<open>!('movePath' in npc)\<close>); a property that is there keeps its value.
\<close>

definition ensure_movement :: "npc \<Rightarrow> npc" where
  "ensure_movement n =
     n\<lparr> n_movePath := (case n_movePath n of None \<Rightarrow> Some JNull | Some v \<Rightarrow> Some v),
        n_moveStartTick := (case n_moveStartTick n of None \<Rightarrow> Some 0 | Some v \<Rightarrow> Some v),
        n_moveDuration := (case n_moveDuration n of None \<Rightarrow> Some 0 | Some v \<Rightarrow> Some v) \<rparr>"

text \<open>
  \<open>npcInstances\<close> after boot. \<open>rawNpcState\<close> is the array parsed from \<open>npcs-state.json\<close>, the
  empty list when the file is absent, unreadable, not an array or empty.
\<close>

definition boot_npcs ::
  "npc_template list \<Rightarrow> (nat \<Rightarrow> string) \<Rightarrow> (string \<times> int \<times> npc_def) list \<Rightarrow> npc list \<Rightarrow> npc list" where
  "boot_npcs templates ids defs rawNpcState =
     map ensure_movement (if rawNpcState \<noteq> [] then rawNpcState else regenerate templates ids 0 defs)"

text \<open>The guard of the roam loop, \<open>if (npc.movePath) return\<close>.\<close>

definition en_route :: "npc \<Rightarrow> bool" where
  "en_route n = (case n_movePath n of None \<Rightarrow> False | Some v \<Rightarrow> truthy v)"

text \<open>
  The movement timers. A scheduled timeout is its handle \<open>tm_id\<close>, the instance id its wrapper
  deletes from \<open>npcTimers\<close>, and what the completion callback closes over: the NPC object (its
  index in \<open>npcInstances\<close>) and the path. \<open>pending\<close> are the timeouts of the runtime that have
  neither fired nor been cleared; \<open>npcTimers\<close> is the map from instance id to handle.
\<close>

record timer =
  tm_id :: nat
  tm_instanceId :: string
  tm_npc :: nat
  tm_path :: "coord list"
  tm_delay :: int

record timers =
  next_timer :: nat
  pending :: "timer list"
  npcTimers :: "(string \<times> nat) list"

definition no_timers :: timers where
  "no_timers = \<lparr> next_timer = 0, pending = [], npcTimers = [] \<rparr>"

definition clearNpcMovementTimer :: "string \<Rightarrow> timers \<Rightarrow> timers" where
  "clearNpcMovementTimer instanceId ts =
     (case map_of (npcTimers ts) instanceId of
        None \<Rightarrow> ts
      | Some timerId \<Rightarrow>
          ts\<lparr> pending := filter (\<lambda>t. tm_id t \<noteq> timerId) (pending ts),
              npcTimers := AList.delete instanceId (npcTimers ts) \<rparr>)"

definition startNpcMovementTimer :: "string \<Rightarrow> nat \<Rightarrow> coord list \<Rightarrow> int \<Rightarrow> timers \<Rightarrow> timers" where
  "startNpcMovementTimer instanceId k path delay ts =
     (let ts1 = clearNpcMovementTimer instanceId ts;
          timerId = next_timer ts1
      in ts1\<lparr> next_timer := timerId + 1,
               pending := pending ts1 @
                 [\<lparr> tm_id = timerId, tm_instanceId = instanceId, tm_npc = k, tm_path = path,
                    tm_delay = delay \<rparr>],
               npcTimers := AList.update instanceId timerId (npcTimers ts1) \<rparr>)"

text \<open>
  The timeout with handle \<open>timerId\<close> fires: the wrapper deletes the map entry of its instance id,
  and the callback moves the NPC to the end of the path, saves and tells the room.
\<close>

definition fire_timer ::
  "clients \<Rightarrow> positions \<Rightarrow> nat \<Rightarrow> npc list \<times> timers \<Rightarrow> (npc list \<times> timers) \<times> effect list" where
  "fire_timer cs ps timerId st =
     (let npcs = fst st; ts = snd st in
      case find (\<lambda>t. tm_id t = timerId) (pending ts) of
        None \<Rightarrow> (st, [])
      | Some t \<Rightarrow>
          (let ts' = ts\<lparr> pending := filter (\<lambda>u. tm_id u \<noteq> timerId) (pending ts),
                         npcTimers := AList.delete (tm_instanceId t) (npcTimers ts) \<rparr>;
               npc' = (npcs ! tm_npc t)\<lparr> n_x := fst (last (tm_path t)), n_y := snd (last (tm_path t)) \<rparr>;
               npcs' = npcs[tm_npc t := npc']
           in ((npcs', ts'),
               SaveNpcState npcs' #
               broadcastToRoom cs ps (n_zone npc') (JNum (n_roomId npc')) (MNpcMove npc'))))"

text \<open>
  \<open>pickRandomTile\<close>: every cell \<open>(x, y)\<close> with \<open>y\<close> below the row count and \<open>x\<close> below the length of
  row \<open>y\<close>, and the one at index \<open>floor (u * count)\<close>, where \<open>u\<close> is the draw of \<open>Math.random\<close>.
  The result is \<open>None\<close> (\<open>undefined\<close>) when the index names no cell.
\<close>

fun room_coords :: "nat \<Rightarrow> jsval list \<Rightarrow> error + coord list" where
  "room_coords y [] = Inr []"
| "room_coords y (row # rows) =
     (case js_length row of
        Inl e \<Rightarrow> Inl e
      | Inr len \<Rightarrow>
          (case to_number len of
             Inl e \<Rightarrow> Inl e
           | Inr bound \<Rightarrow>
               (case room_coords (y + 1) rows of
                  Inl e \<Rightarrow> Inl e
                | Inr cells \<Rightarrow>
                    Inr (map (\<lambda>x. (int x, int y)) [0 ..< (case bound of None \<Rightarrow> 0 | Some c \<Rightarrow> nat c)]
                         @ cells))))"

definition pickRandomTile :: "real \<Rightarrow> jsval list \<Rightarrow> error + coord option" where
  "pickRandomTile u tiles =
     (case room_coords 0 tiles of
        Inl e \<Rightarrow> Inl e
      | Inr coords \<Rightarrow>
          (let i = nat \<lfloor>u * real (length coords)\<rfloor>
           in Inr (if i < length coords then Some (coords ! i) else None)))"

text \<open>
  The room file of an NPC, read through the zone definition. A zone that is not defined makes
  the read of \<open>path\<close> throw; a file that is not there makes \<open>readFileSync\<close> throw.
\<close>

definition load_room :: "(jsval \<Rightarrow> jsval) \<Rightarrow> room_files \<Rightarrow> npc \<Rightarrow> error + room" where
  "load_room zones files n =
     (case js_prop (zones (JStr (n_zone n))) ''path'' of
        Inl e \<Rightarrow> Inl e
      | Inr (JStr p) \<Rightarrow> (case files (p, n_roomId n) of None \<Rightarrow> Inl IOError | Some r \<Rightarrow> Inr r)
      | Inr _ \<Rightarrow> Inl IOError)"

text \<open>
  The body of the roam loop for the NPC at index \<open>k\<close>. \<open>roll\<close> and \<open>u\<close> are the draws of
  \<open>Math.random\<close> for the roam decision and for the target. An accepted path is broadcast and
  handed to \<open>startNpcMovementTimer\<close>; the NPC object itself is not written.
\<close>

definition roam_npc ::
  "(jsval \<Rightarrow> jsval) \<Rightarrow> clients \<Rightarrow> positions \<Rightarrow> room_files \<Rightarrow> real \<Rightarrow> real \<Rightarrow> npc list \<Rightarrow> nat \<Rightarrow> timers
     \<Rightarrow> error + timers \<times> effect list" where
  "roam_npc zones cs ps files roll u npcs k ts =
     (let n = npcs ! k in
      case n_roam n of
        None \<Rightarrow> Inr (ts, [])
      | Some roam \<Rightarrow>
          if r_type roam \<noteq> ''random'' then Inr (ts, [])
          else if en_route n then Inr (ts, [])
          else if roll * 100 < real_of_int (r_frequency roam) then
            (case load_room zones files n of
               Inl e \<Rightarrow> Inl e
             | Inr roomDef \<Rightarrow>
                 (case pickRandomTile u (rm_tiles roomDef) of
                    Inl e \<Rightarrow> Inl e
                  | Inr None \<Rightarrow> Inl TypeError
                  | Inr (Some target) \<Rightarrow>
                      (case findPath (n_x n, n_y n) target (rm_tiles roomDef) of
                         Inl e \<Rightarrow> Inl e
                       | Inr None \<Rightarrow> Inr (ts, [])
                       | Inr (Some path) \<Rightarrow>
                           if length path > 1 then
                             (let pathLen = int (length path) - 1;
                                  rate = (if r_rate roam = 0 then 1 else r_rate roam)
                              in if pathLen \<ge> r_minDuration roam \<and> pathLen \<le> r_maxDuration roam then
                                   (let segmentDuration = 320 div rate;
                                        totalMs = pathLen * segmentDuration
                                    in Inr (startNpcMovementTimer (n_instanceId n) k path totalMs ts,
                                            broadcastToRoom cs ps (n_zone n) (JNum (n_roomId n))
                                              (MNpcStartPath (n_instanceId n) path segmentDuration)))
                                 else Inr (ts, []))
                           else Inr (ts, []))))
          else Inr (ts, []))"

text \<open>
  The roam loop of one tick over the NPC indices. An exception leaves the loop (and the tick
  callback) with the timers as they then stand.
\<close>

fun roam_from ::
  "(jsval \<Rightarrow> jsval) \<Rightarrow> clients \<Rightarrow> positions \<Rightarrow> room_files \<Rightarrow> (nat \<Rightarrow> real) \<Rightarrow> (nat \<Rightarrow> real) \<Rightarrow> npc list
     \<Rightarrow> nat list \<Rightarrow> timers \<Rightarrow> timers \<times> effect list \<times> error option" where
  "roam_from zones cs ps files rolls us npcs [] ts = (ts, [], None)"
| "roam_from zones cs ps files rolls us npcs (k # ks) ts =
     (case roam_npc zones cs ps files (rolls k) (us k) npcs k ts of
        Inl e \<Rightarrow> (ts, [], Some e)
      | Inr (ts', out) \<Rightarrow>
          (case roam_from zones cs ps files rolls us npcs ks ts' of
             (ts'', out', r) \<Rightarrow> (ts'', out @ out', r)))"

definition roam_tick ::
  "(jsval \<Rightarrow> jsval) \<Rightarrow> clients \<Rightarrow> positions \<Rightarrow> room_files \<Rightarrow> (nat \<Rightarrow> real) \<Rightarrow> (nat \<Rightarrow> real)
     \<Rightarrow> npc list \<times> timers \<Rightarrow> (npc list \<times> timers) \<times> effect list" where
  "roam_tick zones cs ps files rolls us st =
     (case roam_from zones cs ps files rolls us (fst st) [0 ..< length (fst st)] (snd st) of
        (ts', out, r) \<Rightarrow> ((fst st, ts'), out))"

text \<open>
  The server operations that reach the NPC instances or their timers after boot: the roam
  loop of a tick and the firing of a timeout, with the connections, positions and room files
  of the moment. The other readers of \<open>npcInstances\<close> (the room snapshots and the behaviour
  hooks of the repository) do not write an instance.
\<close>

datatype npc_op =
    Roam clients positions room_files "nat \<Rightarrow> real" "nat \<Rightarrow> real"
  | Fire clients positions nat

fun apply_npc_op :: "(jsval \<Rightarrow> jsval) \<Rightarrow> npc_op \<Rightarrow> npc list \<times> timers \<Rightarrow> (npc list \<times> timers) \<times> effect list" where
  "apply_npc_op zones (Roam cs ps files rolls us) st = roam_tick zones cs ps files rolls us st"
| "apply_npc_op zones (Fire cs ps timerId) st = fire_timer cs ps timerId st"

definition npc_run :: "(jsval \<Rightarrow> jsval) \<Rightarrow> npc_op list \<Rightarrow> npc list \<times> timers \<Rightarrow> npc list \<times> timers" where
  "npc_run zones ops st = foldl (\<lambda>s op. fst (apply_npc_op zones op s)) st ops"

text \<open>The timer the roam loop schedules for an accepted path.\<close>

definition scheduled :: "timers \<Rightarrow> string \<Rightarrow> nat \<Rightarrow> coord list \<Rightarrow> int \<Rightarrow> timer" where
  "scheduled ts instanceId k path delay =
     \<lparr> tm_id = next_timer ts, tm_instanceId = instanceId, tm_npc = k, tm_path = path, tm_delay = delay \<rparr>"

text \<open>
  The timers are consistent when the map and the pending timeouts name each other: every
  pending timeout is the map entry of its instance id, every map entry is a pending timeout,
  and handles are fresh.
\<close>

definition timers_wf :: "timers \<Rightarrow> bool" where
  "timers_wf ts \<longleftrightarrow>
     distinct (map tm_id (pending ts)) \<and>
     (\<forall>t \<in> set (pending ts). tm_id t < next_timer ts \<and>
        map_of (npcTimers ts) (tm_instanceId t) = Some (tm_id t)) \<and>
     (\<forall>i timerId. map_of (npcTimers ts) i = Some timerId \<longrightarrow>
        (\<exists>t \<in> set (pending ts). tm_id t = timerId \<and> tm_instanceId t = i))"

text \<open>The state file has no movement in flight: \<open>movePath\<close> is absent or \<open>null\<close>.\<close>

definition path_unset :: "npc \<Rightarrow> bool" where
  "path_unset n \<longleftrightarrow> n_movePath n = None \<or> n_movePath n = Some JNull"

text \<open>
  Example: one roaming NPC in the open 2 x 2 room of zone 0, regenerated from its definition,
  and the same NPC as a state file carrying a path would load it.
\<close>

definition ex_roam :: roam where
  "ex_roam = \<lparr> r_type = ''random'', r_frequency = 100, r_minDuration = 1, r_maxDuration = 5, r_rate = 2 \<rparr>"

definition ex_templates :: "npc_template list" where
  "ex_templates = [\<lparr> t_id = JStr ''fido'', t_name = JStr ''Fido'', t_sprite = JStr ''dog'',
                     t_roam = Some ex_roam \<rparr>]"

definition ex_defs :: "(string \<times> int \<times> npc_def) list" where
  "ex_defs = [(''0'', 0, \<lparr> nd_typeId = JStr ''fido'', nd_x = 0, nd_y = 0 \<rparr>)]"

definition ex_ids :: "nat \<Rightarrow> string" where
  "ex_ids k = ''a1b2c3d4e5f60708''"

definition ex_fido :: npc where
  "ex_fido = \<lparr> n_instanceId = ''a1b2c3d4e5f60708'', n_typeId = JStr ''fido'', n_name = JStr ''Fido'',
               n_sprite = JStr ''dog'', n_zone = ''0'', n_roomId = 0, n_x = 0, n_y = 0,
               n_roam = Some ex_roam, n_lastRoamTick = 0,
               n_movePath = Some JNull, n_moveStartTick = Some 0, n_moveDuration = Some 0 \<rparr>"

definition ex_fido_en_route :: npc where
  "ex_fido_en_route = ex_fido\<lparr> n_movePath := Some (JArr [JArr [JNum 0, JNum 0], JArr [JNum 1, JNum 0]]) \<rparr>"

definition ex_open_files :: room_files where
  "ex_open_files key =
     (if key = (''zones/beginning'', 0)
      then Some \<lparr> rm_width = 2, rm_height = 2, rm_tiles = ex_open, rm_other = [] \<rparr> else None)"

definition ex_npc_ops :: "npc_op list" where
  "ex_npc_ops = [Roam ex_clients ex_positions ex_open_files (\<lambda>k. 0) (\<lambda>k. 3 / 4),
                 Roam ex_clients ex_positions ex_open_files (\<lambda>k. 0) (\<lambda>k. 1 / 4),
                 Fire ex_clients ex_positions 1]"

text \<open>The timers after the first and after the second roam loop of the example.\<close>

definition ex_timers1 :: timers where
  "ex_timers1 = \<lparr> next_timer = 1,
                   pending = [\<lparr> tm_id = 0, tm_instanceId = ''a1b2c3d4e5f60708'', tm_npc = 0,
                                tm_path = [(0, 0), (1, 0), (1, 1)], tm_delay = 320 \<rparr>],
                   npcTimers = [(''a1b2c3d4e5f60708'', 0)] \<rparr>"

definition ex_timers2 :: timers where
  "ex_timers2 = \<lparr> next_timer = 2,
                   pending = [\<lparr> tm_id = 1, tm_instanceId = ''a1b2c3d4e5f60708'', tm_npc = 0,
                                tm_path = [(0, 0), (1, 0)], tm_delay = 160 \<rparr>],
                   npcTimers = [(''a1b2c3d4e5f60708'', 1)] \<rparr>"

section \<open>Timekeeping\<close>

lemma digits_small: "n < 10 \<Longrightarrow> digits n = [''0123456789'' ! n]"
  by (subst digits.simps) simp







section \<open>Object instances: pickup, respawn, registry\<close>

lemma find_index_Some:
  "find_index P xs = Some k \<Longrightarrow> k < length xs \<and> P (xs ! k) \<and> (\<forall>j<k. \<not> P (xs ! j))"
proof (induction xs arbitrary: k)
  case Nil
  then show ?case by simp
next
  case (Cons v vs)
  show ?case
  proof (cases "P v")
    case True
    with Cons.prems show ?thesis by simp
  next
    case False
    with Cons.prems obtain k' where k': "find_index P vs = Some k'" "k = Suc k'"
      by auto
    from Cons.IH[OF k'(1)] False k'(2) show ?thesis
      by (auto simp: nth_Cons split: nat.splits)
  qed
qed

lemma find_index_None: "find_index P xs = None \<longleftrightarrow> (\<forall>v \<in> set xs. \<not> P v)"
  by (induction xs) auto

lemma strict_eq_JNull [simp]: "strict_eq v JNull \<longleftrightarrow> v = JNull"
  by (cases v) auto

lemma strict_eq_JStr [simp]: "strict_eq v (JStr s) \<longleftrightarrow> v = JStr s"
  by (cases v) auto

lemma sweep_from_fst:
  "fst (sweep_from t cs ps seen insts) = seen @ map (respawn1 t) insts"
  by (induction insts arbitrary: seen) (simp_all add: respawn1_def Let_def case_prod_unfold)

lemma respawn_sweep_fst: "fst (respawn_sweep g cs ps insts) = map (respawn1 (tick g)) insts"
  by (simp add: respawn_sweep_def sweep_from_fst)


lemma ex_zone: "js_toString (fld ex_pickup_msg ''zone'') = Inr ''0''"
  by (simp add: ex_pickup_msg_def fld_def show_int_def digits_small)


text \<open>
  For a removal stamped at a tick other than 0 the sweep fires exactly when the delay has
  elapsed, and a single instance is then written and announced once.
\<close>

lemma respawn_due_stamped:
  assumes "o_pickedUpBy i \<noteq> JNull" "o_respawnAfterSec i = Some r" "r \<noteq> 0"
    and "o_removedAt i = Some a" "a \<noteq> 0"
  shows "respawn_due t i \<longleftrightarrow> t - a \<ge> r"
  using assms by (simp add: respawn_due_def)

lemma sweep_single:
  "respawn_sweep g cs ps [i] =
     (if respawn_due (tick g) i
      then ([i\<lparr> o_pickedUpBy := JNull, o_removedAt := None \<rparr>],
            SaveObjectsState [i\<lparr> o_pickedUpBy := JNull, o_removedAt := None \<rparr>] #
            map (\<lambda>c. Send c (MObjectSpawned (i\<lparr> o_pickedUpBy := JNull, o_removedAt := None \<rparr>)))
                (room_recipients cs ps (o_zone i) (o_roomId i)))
      else ([i], []))"
  by (simp add: respawn_sweep_def Let_def broadcastToRoom_def)

lemma respawn_due_tick0: "o_removedAt i = Some 0 \<Longrightarrow> \<not> respawn_due t i"
  by (simp add: respawn_due_def)

text \<open>
  C2. The sweep tests \<open>inst.removedAt\<close> for truthiness, so a removal stamped at tick 0 is taken
  for no removal at all: the apple picked up while the tick counter is 0 keeps its owner at
  every later tick, although its respawn delay of 5 has long passed.
\<close>

theorem respawn_stamped_at_tick0_never_fires:
  "fst (pickup 0 ''Ava'' \<lparr> tick = 0, hour = 0, day = 0 \<rparr> ex_clients ex_positions [ex_apple] ex_pickup_msg)
     = [ex_apple\<lparr> o_pickedUpBy := JStr ''Ava'', o_removedAt := Some 0 \<rparr>] \<and>
   (\<forall>t h d. respawn_sweep \<lparr> tick = t, hour = h, day = d \<rparr> ex_clients ex_positions
       [ex_apple\<lparr> o_pickedUpBy := JStr ''Ava'', o_removedAt := Some 0 \<rparr>]
     = ([ex_apple\<lparr> o_pickedUpBy := JStr ''Ava'', o_removedAt := Some 0 \<rparr>], []))"
proof -
  have "find_index (by_instanceId ex_pickup_msg) [ex_apple] = Some 0"
    by (simp add: by_instanceId_def ex_apple_def ex_pickup_msg_def fld_def)
  then have "fst (pickup 0 ''Ava'' \<lparr> tick = 0, hour = 0, day = 0 \<rparr> ex_clients ex_positions [ex_apple] ex_pickup_msg)
     = [ex_apple\<lparr> o_pickedUpBy := JStr ''Ava'', o_removedAt := Some 0 \<rparr>]"
    using ex_zone by (simp add: pickup_def Let_def ex_apple_def ex_pickup_msg_def fld_def)
  moreover have "respawn_sweep \<lparr> tick = t, hour = h, day = d \<rparr> ex_clients ex_positions
       [ex_apple\<lparr> o_pickedUpBy := JStr ''Ava'', o_removedAt := Some 0 \<rparr>]
     = ([ex_apple\<lparr> o_pickedUpBy := JStr ''Ava'', o_removedAt := Some 0 \<rparr>], [])" for t h d
    by (simp add: sweep_single respawn_due_tick0)
  ultimately show ?thesis by simp
qed

lemma owner_wf_iff: "owner_wf i \<longleftrightarrow> in_world i \<or> (\<exists>n. held_by i n)"
  by (auto simp: owner_wf_def in_world_def held_by_def split: jsval.splits)

lemma map_update_same:
  assumes "f v = f (xs ! k)"
  shows "map f (xs[k := v]) = map f xs"
proof (cases "k < length xs")
  case True
  then have "map f (xs[k := v]) = (map f xs)[k := map f xs ! k]"
    using assms by (simp add: map_update)
  then show ?thesis by (simp only: list_update_id)
next
  case False
  then have "xs[k := v] = xs" by (simp add: list_update_beyond)
  then show ?thesis by simp
qed

lemma list_all_update:
  "list_all P xs \<Longrightarrow> P v \<Longrightarrow> list_all P (xs[k := v])"
  by (auto simp: list_all_iff dest!: set_update_subset_insert[THEN subsetD])

lemma reconcile_prefix: "prefix insts (reconcile ds ids insts)"
proof (induction ds arbitrary: ids insts)
  case Nil
  then show ?case by simp
next
  case (Cons d ds)
  show ?case
  proof (cases "spawn_exists d insts")
    case True
    then show ?thesis using Cons.IH by simp
  next
    case False
    then show ?thesis
      using Cons.IH append_prefixD by (fastforce simp del: prefix_snoc)
  qed
qed

lemma reconcile_owner: "list_all owner_wf insts \<Longrightarrow> list_all owner_wf (reconcile ds ids insts)"
  by (induction ds arbitrary: ids insts) (simp_all add: owner_wf_def)

lemma pickup_ids: "map o_instanceId (fst (pickup cid name g cs ps insts m)) = map o_instanceId insts"
  by (simp add: pickup_def Let_def map_update_same split: sum.splits option.splits)

lemma pickup_owner:
  "list_all owner_wf insts \<Longrightarrow> list_all owner_wf (fst (pickup cid name g cs ps insts m))"
  by (simp add: pickup_def Let_def list_all_update owner_wf_def split: sum.splits option.splits)

lemma drop_ids: "map o_instanceId (fst (drop_obj cid name cs ps insts m)) = map o_instanceId insts"
  by (simp add: drop_obj_def Let_def map_update_same split: sum.splits option.splits)

lemma drop_owner:
  "list_all owner_wf insts \<Longrightarrow> list_all owner_wf (fst (drop_obj cid name cs ps insts m))"
  by (simp add: drop_obj_def Let_def list_all_update owner_wf_def split: sum.splits option.splits)

lemma sweep_ids: "map o_instanceId (fst (respawn_sweep g cs ps insts)) = map o_instanceId insts"
  by (simp add: respawn_sweep_fst respawn1_def comp_def)

lemma sweep_owner:
  "list_all owner_wf insts \<Longrightarrow> list_all owner_wf (fst (respawn_sweep g cs ps insts))"
  by (auto simp: respawn_sweep_fst respawn1_def list_all_iff owner_wf_def)

lemma apply_obj_op_prefix:
  "prefix (map o_instanceId insts) (map o_instanceId (apply_obj_op insts op))"
  by (cases op) (simp_all add: pickup_ids drop_ids sweep_ids reconcile_prefix map_mono_prefix)

lemma apply_obj_op_owner:
  "list_all owner_wf insts \<Longrightarrow> list_all owner_wf (apply_obj_op insts op)"
  by (cases op) (simp_all add: pickup_owner drop_owner sweep_owner reconcile_owner)

lemma apply_obj_op_length:
  "length (apply_obj_op insts op) \<ge> length insts"
  using apply_obj_op_prefix[of insts op] by (auto dest: prefix_length_le)

text \<open>
  C8. Boot reconciliation, pickup, drop and the respawn sweep, applied in any order and any
  number of times, never remove an instance from the registry (the instance ids present
  before are a prefix of those present after), and every instance is at each moment either
  in the world (\<open>pickedUpBy\<close> is \<open>null\<close>) or held by exactly one player, never both.
\<close>

theorem instance_registry_invariant:
  assumes "list_all owner_wf insts"
  shows "prefix (map o_instanceId insts) (map o_instanceId (foldl apply_obj_op insts ops)) \<and>
         list_all (\<lambda>i. (in_world i \<and> \<not> (\<exists>n. held_by i n)) \<or>
                        (\<not> in_world i \<and> (\<exists>!n. held_by i n)))
                  (foldl apply_obj_op insts ops)"
proof -
  have inv: "prefix (map o_instanceId insts) (map o_instanceId (foldl apply_obj_op insts ops)) \<and>
             list_all owner_wf (foldl apply_obj_op insts ops)"
    using assms
  proof (induction ops arbitrary: insts)
    case Nil
    then show ?case by simp
  next
    case (Cons op ops)
    from Cons.IH[OF apply_obj_op_owner[OF Cons.prems, of op]]
    show ?case
      using apply_obj_op_prefix[of insts op] by (auto intro: prefix_order.trans)
  qed
  have "(in_world i \<and> \<not> (\<exists>n. held_by i n)) \<or> (\<not> in_world i \<and> (\<exists>!n. held_by i n))"
    if "owner_wf i" for i
    using that by (auto simp: owner_wf_def in_world_def held_by_def split: jsval.splits)
  with inv show ?thesis
    by (auto simp: list_all_iff)
qed

text \<open>
  The pickup/drop cycle of the apple, from a registry that already holds one carried object.
\<close>

lemma ex_ops_run:
  "foldl apply_obj_op [ex_carried] ex_ops = [ex_carried, ex_apple\<lparr> o_x := JNum 3, o_y := JNum 4 \<rparr>]"
  by (simp add: ex_ops_def ex_spawn_def ex_apple_def spawn_exists_def pickup_def drop_obj_def
      respawn_sweep_def respawn_due_def Let_def by_instanceId_def fld_def ex_pickup_msg_def
      ex_drop_msg_def show_int_def digits_small ex_positions_def ex_player_def ex_carried_def)

theorem instance_registry_invariant_witness:
  "list_all owner_wf [ex_carried] \<and>
   foldl apply_obj_op [ex_carried] ex_ops = [ex_carried, ex_apple\<lparr> o_x := JNum 3, o_y := JNum 4 \<rparr>] \<and>
   prefix (map o_instanceId [ex_carried]) (map o_instanceId (foldl apply_obj_op [ex_carried] ex_ops)) \<and>
   list_all (\<lambda>i. (in_world i \<and> \<not> (\<exists>n. held_by i n)) \<or>
                  (\<not> in_world i \<and> (\<exists>!n. held_by i n)))
            (foldl apply_obj_op [ex_carried] ex_ops)"
proof -
  have h: "list_all owner_wf [ex_carried]"
    by (simp add: owner_wf_def ex_carried_def)
  show ?thesis
    using instance_registry_invariant[OF h, of ex_ops] ex_ops_run h by simp
qed

section \<open>Authentication\<close>

lemma refuse_registry:
  "refuse reg cid e = (reg', out, oc) \<Longrightarrow>
     reg_clientId reg' = reg_clientId reg \<and> reg_nameMap reg' = reg_nameMap reg \<and>
     reg_positions reg' = reg_positions reg \<and>
     map_of (reg_clients reg') cid = Some CLOSING \<and>
     out = [Send cid (MError e), Close cid] \<and> oc = Refused"
  by (auto simp: refuse_def update_Some_unfold)

lemma admit_outcome: "snd (snd (admit dz g insts npcs reg cid ip)) = Authenticated cid"
  by (simp add: admit_def Let_def)

text \<open>
  Every refusal of a message that carries a name and a password happens after the id was
  taken and the socket and the name were registered, and leaves both entries behind; only
  the position entry is never made.
\<close>

lemma auth_refused_registered:
  assumes "auth kdf fresh_salt dz g insts npcs files reg (Some am) = ((reg', out, Refused), files')"
    and "am_name am \<noteq> []" and "am_password am \<noteq> []"
  shows "reg_clientId reg' = reg_clientId reg + 1 \<and>
         map_of (reg_clients reg') (reg_clientId reg) = Some CLOSING \<and>
         map_of (reg_nameMap reg') (reg_clientId reg) = Some (am_name am) \<and>
         reg_positions reg' = reg_positions reg \<and>
         (\<exists>e. out = [Send (reg_clientId reg) (MError e), Close (reg_clientId reg)])"
proof -
  let ?cid = "reg_clientId reg"
  let ?reg1 = "reg\<lparr> reg_clientId := ?cid + 1,
                      reg_nameMap := AList.update ?cid (am_name am) (reg_nameMap reg),
                      reg_clients := AList.update ?cid OPEN (reg_clients reg) \<rparr>"
  have adm: "admit dz g insts npcs r c ip \<noteq> (reg', out, Refused)" for r c ip
    using admit_outcome[of dz g insts npcs r c ip] by (metis auth_outcome.distinct(1) snd_conv)
  from assms obtain e where "refuse ?reg1 ?cid e = (reg', out, Refused)"
    by (auto simp: auth_def Let_def adm split: pfile.splits if_splits sum.splits)
  from refuse_registry[OF this] show ?thesis
    by (auto simp: update_Some_unfold)
qed

text \<open>
  C3. A first message \<open>{name: "Ava", password: "x", create: false}\<close> for which no player file
  exists is refused with "Character not found." and the socket is closed, yet connection id 0
  has been allocated and the closing socket and the name stay registered under it.
\<close>

theorem auth_refusal_keeps_registration:
  "fst (auth ex_kdf ''salt'' ''0'' \<lparr> tick = 0, hour = 0, day = 0 \<rparr> [] [] ex_files ex_registry
          (Some \<lparr> am_name = ''Ava'', am_password = ''x'', am_create = False \<rparr>)) =
     (\<lparr> reg_clientId = 1, reg_clients = [(0, CLOSING)], reg_nameMap = [(0, ''Ava'')],
        reg_positions = [] \<rparr>,
      [Send 0 (MError ''Character not found.''), Close 0], Refused)"
  by (simp add: auth_def Let_def ex_files_def ex_registry_def refuse_def)

lemma admit_sends:
  "admit dz g insts npcs reg cid ip = (reg', out, oc) \<Longrightarrow>
     Send c (MInit c' ps' x' y' r' p') \<in> set out \<Longrightarrow> r' = 0 \<and> p' = 10"
  by (auto simp: admit_def Let_def)

lemma admit_position:
  "admit dz g insts npcs reg cid ip = (reg', out, oc) \<Longrightarrow>
     map_of (reg_positions reg') cid =
       Some \<lparr> p_name = ip_name ip, p_x = JNum (ip_x ip), p_y = JNum (ip_y ip),
              p_roomId = JNum (ip_roomId ip), p_privilege = ip_privilege ip,
              p_color = ip_color ip, p_inventory = InvFile (ip_inventory ip),
              p_salt = ip_salt ip, p_hash = ip_hash ip, p_zone = dz \<rparr> \<and>
     reg_clients reg' = reg_clients reg \<and>
     Send cid (MInit cid (reg_positions reg') (ip_x ip) (ip_y ip) 0 10) \<in> set out"
  by (auto simp: admit_def Let_def update_Some_unfold)

lemma room_recipients_mem:
  "c \<in> set (room_recipients cs ps z r) \<longleftrightarrow>
     (c, OPEN) \<in> set cs \<and> (\<exists>pos. map_of ps c = Some pos \<and> p_zone pos = z \<and> strict_eq (p_roomId pos) r)"
  by (auto simp: room_recipients_def image_iff split: option.splits)

lemma update_position_privilege:
  "map_of ps cid = Some pos \<Longrightarrow>
     \<exists>pos'. map_of (update_position ps cid m) cid = Some pos' \<and> p_privilege pos' = p_privilege pos \<and>
            p_roomId pos' = fld m ''roomId''"
  by (simp add: update_position_def update_Some_unfold)

text \<open>
  A login by "Bo", whose file stores room 3 and privilege 2, followed by an \<open>update\<close> message
  that reports room 5: from then on a broadcast to room 3 no longer reaches the connection,
  and one to room 5 does. Room scoping follows the position entry, not the stored record.
\<close>

lemma ex_login_eq:
  "ex_login =
     (\<lparr> reg_clientId = 1, reg_clients = [(0, OPEN)], reg_nameMap = [(0, ''Bo'')],
        reg_positions = [(0, \<lparr> p_name = ''Bo'', p_x = JNum 64, p_y = JNum 96, p_roomId = JNum 3,
                               p_privilege = 2, p_color = ''blue'', p_inventory = InvFile [],
                               p_salt = JStr ''s'', p_hash = JStr ''s:pw'', p_zone = ''0'' \<rparr>)] \<rparr>,
      [Send 0 (MInit 0 [(0, \<lparr> p_name = ''Bo'', p_x = JNum 64, p_y = JNum 96, p_roomId = JNum 3,
                               p_privilege = 2, p_color = ''blue'', p_inventory = InvFile [],
                               p_salt = JStr ''s'', p_hash = JStr ''s:pw'', p_zone = ''0'' \<rparr>)] 64 96 0 10),
       Send 0 (MTimeUpdate (getFormattedTimeMessage \<lparr> tick = 0, hour = 0, day = 0 \<rparr>)),
       Send 0 (MInitObjects []), Send 0 (MInitInventory []), Send 0 (MInitNpcs [])],
      Authenticated 0)"
  by (simp add: ex_login_def auth_def Let_def ex_files_def ex_registry_def ex_file_def js_not_def
      verifyPassword_def ex_kdf_def admit_def fill_from_file_def colors_def)

theorem room_scope_follows_update_counterexample:
  "room_recipients (reg_clients (fst ex_login)) (reg_positions (fst ex_login)) ''0'' (JNum 3) = [0] \<and>
   room_recipients (reg_clients (fst ex_login))
      (update_position (reg_positions (fst ex_login)) 0 [(''type'', JStr ''update''), (''x'', JNum 1),
         (''y'', JNum 1), (''roomId'', JNum 5)]) ''0'' (JNum 3) = [] \<and>
   room_recipients (reg_clients (fst ex_login))
      (update_position (reg_positions (fst ex_login)) 0 [(''type'', JStr ''update''), (''x'', JNum 1),
         (''y'', JNum 1), (''roomId'', JNum 5)]) ''0'' (JNum 5) = [0]"
  by (simp add: ex_login_eq room_recipients_def update_position_def fld_def)

text \<open>
  C10 (amended). A successful login sends exactly the \<open>init\<close> snapshot with room 0 and privilege
  10, whatever the player file stores. The position entry registered for the connection takes
  room and privilege from the file (for a verified password and numeric fields). The privilege
  gate reads the entry's privilege, which an \<open>update\<close> message never changes; room-scoped
  broadcasts reach the connection in the entry's room, which is the file's room until an
  \<open>update\<close> message of the connection overwrites it with the room the client reports.
\<close>

theorem init_snapshot_vs_position:
  assumes "auth kdf fresh_salt dz g insts npcs files reg parsed = ((reg', out, Authenticated cid), files')"
  shows "\<exists>pos. map_of (reg_positions reg') cid = Some pos \<and>
     (\<exists>x y. Send cid (MInit cid (reg_positions reg') x y 0 10) \<in> set out) \<and>
     (\<forall>c c' ps x y r p. Send c (MInit c' ps x y r p) \<in> set out \<longrightarrow> r = 0 \<and> p = 10) \<and>
     (\<forall>am d r p. parsed = Some am \<and> files (am_name am) = Rec d \<and>
         verifyPassword kdf (am_password am) (pf_salt d) (pf_hash d) = Inr True \<and>
         pf_roomId d = JNum r \<and> pf_privilege d = JNum p \<longrightarrow>
         p_roomId pos = JNum r \<and> p_privilege pos = p) \<and>
     (privileged (reg_positions reg') cid \<longleftrightarrow> 10 \<le> p_privilege pos) \<and>
     (\<forall>z r. cid \<in> set (room_recipients (reg_clients reg') (reg_positions reg') z r) \<longleftrightarrow>
         z = dz \<and> strict_eq (p_roomId pos) r) \<and>
     (\<forall>m. \<exists>pos'. map_of (update_position (reg_positions reg') cid m) cid = Some pos' \<and>
         p_privilege pos' = p_privilege pos \<and> p_roomId pos' = fld m ''roomId'')"
proof -
  from assms obtain am where am: "parsed = Some am" "am_name am \<noteq> []" "am_password am \<noteq> []"
    by (auto simp: auth_def split: option.splits if_splits)
  let ?cid = "reg_clientId reg"
  let ?reg1 = "reg\<lparr> reg_clientId := ?cid + 1,
                      reg_nameMap := AList.update ?cid (am_name am) (reg_nameMap reg),
                      reg_clients := AList.update ?cid OPEN (reg_clients reg) \<rparr>"
  let ?ip0 = "\<lparr> ip_name = am_name am, ip_x = 400, ip_y = 300, ip_roomId = 0,
                 ip_color = colors ! (?cid mod length colors), ip_privilege = 0, ip_inventory = [],
                 ip_salt = JUndef, ip_hash = JUndef \<rparr>"
  have ref: "refuse r c e \<noteq> (reg', out, Authenticated cid)" for r c e
    by (simp add: refuse_def)
  from assms am obtain ip where adm: "admit dz g insts npcs ?reg1 ?cid ip = (reg', out, Authenticated cid)"
    and rec: "\<And>d. files (am_name am) = Rec d \<Longrightarrow>
                verifyPassword kdf (am_password am) (pf_salt d) (pf_hash d) = Inr True \<Longrightarrow>
                ip = fill_from_file ?ip0 d"
    by (auto simp: auth_def Let_def ref split: pfile.splits if_splits sum.splits)
  from adm have cid: "cid = ?cid"
    using admit_outcome[of dz g insts npcs ?reg1 ?cid ip] by simp
  let ?pos = "\<lparr> p_name = ip_name ip, p_x = JNum (ip_x ip), p_y = JNum (ip_y ip),
              p_roomId = JNum (ip_roomId ip), p_privilege = ip_privilege ip,
              p_color = ip_color ip, p_inventory = InvFile (ip_inventory ip),
              p_salt = ip_salt ip, p_hash = ip_hash ip, p_zone = dz \<rparr>"
  from admit_position[OF adm] have pos: "map_of (reg_positions reg') cid = Some ?pos"
    and cl: "reg_clients reg' = AList.update ?cid OPEN (reg_clients reg)"
    and ini: "Send cid (MInit cid (reg_positions reg') (ip_x ip) (ip_y ip) 0 10) \<in> set out"
    by (simp_all add: cid)
  have open_c: "(cid, OPEN) \<in> set (reg_clients reg')"
    unfolding cl cid by (rule map_of_SomeD) (simp add: update_Some_unfold)
  have c1: "\<exists>x y. Send cid (MInit cid (reg_positions reg') x y 0 10) \<in> set out"
    using ini by blast
  have c2: "\<forall>c c' ps x y r p. Send c (MInit c' ps x y r p) \<in> set out \<longrightarrow> r = 0 \<and> p = 10"
    using admit_sends[OF adm] by blast
  have c3: "\<forall>am' d r p. parsed = Some am' \<and> files (am_name am') = Rec d \<and>
         verifyPassword kdf (am_password am') (pf_salt d) (pf_hash d) = Inr True \<and>
         pf_roomId d = JNum r \<and> pf_privilege d = JNum p \<longrightarrow>
         p_roomId ?pos = JNum r \<and> p_privilege ?pos = p"
    using rec am(1) by (auto simp: fill_from_file_def)
  have c4: "privileged (reg_positions reg') cid \<longleftrightarrow> 10 \<le> p_privilege ?pos"
    using pos by (auto simp: privileged_def)
  have c5: "\<forall>z r. cid \<in> set (room_recipients (reg_clients reg') (reg_positions reg') z r) \<longleftrightarrow>
         z = dz \<and> strict_eq (p_roomId ?pos) r"
    using pos open_c by (auto simp: room_recipients_mem)
  have c6: "\<forall>m. \<exists>pos'. map_of (update_position (reg_positions reg') cid m) cid = Some pos' \<and>
         p_privilege pos' = p_privilege ?pos \<and> p_roomId pos' = fld m ''roomId''"
    using update_position_privilege[OF pos] by blast
  show ?thesis
    using pos c1 c2 c3 c4 c5 c6 by blast
qed

text \<open>
  The login of "Bo": the snapshot says room 0 and privilege 10, the entry says room 3 and
  privilege 2, so the edit gate stays shut and room 3 is where broadcasts find the connection.
\<close>

theorem init_snapshot_vs_position_witness:
  "auth ex_kdf ''salt'' ''0'' \<lparr> tick = 0, hour = 0, day = 0 \<rparr> [] [] ex_files ex_registry
       (Some \<lparr> am_name = ''Bo'', am_password = ''pw'', am_create = False \<rparr>) =
     ((fst ex_login, fst (snd ex_login), Authenticated 0), ex_files) \<and>
   verifyPassword ex_kdf ''pw'' (pf_salt ex_file) (pf_hash ex_file) = Inr True \<and>
   map_of (reg_positions (fst ex_login)) 0 = Some ex_bo \<and>
   Send 0 (MInit 0 [(0, ex_bo)] 64 96 0 10) \<in> set (fst (snd ex_login)) \<and>
   p_roomId ex_bo = JNum 3 \<and> p_privilege ex_bo = 2 \<and>
   \<not> privileged (reg_positions (fst ex_login)) 0 \<and>
   0 \<in> set (room_recipients (reg_clients (fst ex_login)) (reg_positions (fst ex_login)) ''0'' (JNum 3))"
proof -
  have snd_run: "snd (auth ex_kdf ''salt'' ''0'' \<lparr> tick = 0, hour = 0, day = 0 \<rparr> [] [] ex_files ex_registry
       (Some \<lparr> am_name = ''Bo'', am_password = ''pw'', am_create = False \<rparr>)) = ex_files"
    by (simp add: auth_def Let_def ex_files_def ex_registry_def ex_file_def js_not_def
        verifyPassword_def ex_kdf_def)
  have oc: "snd (snd ex_login) = Authenticated 0"
    by (simp add: ex_login_eq)
  have run: "auth ex_kdf ''salt'' ''0'' \<lparr> tick = 0, hour = 0, day = 0 \<rparr> [] [] ex_files ex_registry
       (Some \<lparr> am_name = ''Bo'', am_password = ''pw'', am_create = False \<rparr>) =
     ((fst ex_login, fst (snd ex_login), Authenticated 0), ex_files)"
    using snd_run oc by (simp add: prod_eq_iff ex_login_def)
  have v: "verifyPassword ex_kdf ''pw'' (pf_salt ex_file) (pf_hash ex_file) = Inr True"
    by (simp add: verifyPassword_def ex_kdf_def ex_file_def)
  have f: "ex_files ''Bo'' = Rec ex_file"
    by (simp add: ex_files_def)
  from init_snapshot_vs_position[OF run] obtain pos where
    pos: "map_of (reg_positions (fst ex_login)) 0 = Some pos"
    and rec: "\<forall>am d r p. Some \<lparr> am_name = ''Bo'', am_password = ''pw'', am_create = False \<rparr> = Some am \<and>
         ex_files (am_name am) = Rec d \<and>
         verifyPassword ex_kdf (am_password am) (pf_salt d) (pf_hash d) = Inr True \<and>
         pf_roomId d = JNum r \<and> pf_privilege d = JNum p \<longrightarrow>
         p_roomId pos = JNum r \<and> p_privilege pos = p"
    and gate: "privileged (reg_positions (fst ex_login)) 0 \<longleftrightarrow> 10 \<le> p_privilege pos"
    and scope: "\<forall>z r. 0 \<in> set (room_recipients (reg_clients (fst ex_login)) (reg_positions (fst ex_login)) z r) \<longleftrightarrow>
         z = ''0'' \<and> strict_eq (p_roomId pos) r"
    by (elim exE conjE) 
  have pos_eq: "pos = ex_bo"
    using pos by (simp add: ex_login_eq ex_bo_def)
  from rec f v have vals: "p_roomId pos = JNum 3 \<and> p_privilege pos = 2"
    by (auto simp: ex_file_def)
  have ini: "Send 0 (MInit 0 [(0, ex_bo)] 64 96 0 10) \<in> set (fst (snd ex_login))"
    by (simp add: ex_login_eq ex_bo_def)
  show ?thesis
    using run v pos vals gate scope ini unfolding pos_eq by simp
qed

section \<open>Privileged edits\<close>

text \<open>
  Every refusal of the three edit handlers is fail-closed: whichever check fails (privilege,
  room id, early validation, zone, room file, coordinates, terrain, a failed write), the
  requester alone gets the error and no room file changes.
\<close>

lemma with_room_unprivileged:
  "\<not> privileged ps cid \<Longrightarrow>
     with_room zones cs ps files cid m early body = (files, [Send cid (MError ''Insufficient privileges'')])"
  by (simp add: with_room_def reply_error_def)

lemma fail_closed_reply [simp]: "fail_closed cs files cid (files, reply_error cid e)"
  by (simp add: fail_closed_def reply_error_def)

lemma fail_closed_catch [simp]: "fail_closed cs files cid (files, catch_reply cs cid)"
  by (simp add: fail_closed_def catch_reply_def)

lemma fail_closed_persist [simp]:
  "fail_closed cs files cid (persist_and_broadcast w cs files cid key r (f) (MRoomUpdated a b))"
  "fail_closed cs files cid (persist_and_broadcast w cs files cid key r (f) (MRoomResized a b' c))"
  by (auto simp: fail_closed_def persist_and_broadcast_def reply_error_def broadcast_all_def)

lemma with_room_fail_closed:
  assumes "\<And>roomId key roomJson. fail_closed cs files cid (body roomId key roomJson)"
  shows "fail_closed cs files cid (with_room zones cs ps files cid m early body)"
  using assms
  by (simp add: with_room_def Let_def split: sum.splits validation.splits option.splits)

lemma edit_tile_fail_closed: "fail_closed cs files cid (edit_tile zones w cs ps files cid m)"
  unfolding edit_tile_def
  by (rule with_room_fail_closed) (simp add: Let_def split: sum.splits validation.splits)

lemma edit_tile_exits_fail_closed: "fail_closed cs files cid (edit_tile_exits zones w cs ps files cid m)"
  unfolding edit_tile_exits_def
  by (rule with_room_fail_closed) (simp add: Let_def split: sum.splits validation.splits)

lemma resize_room_fail_closed: "fail_closed cs files cid (resize_room zones w cs ps files cid m)"
  unfolding resize_room_def
  by (rule with_room_fail_closed) (simp add: Let_def split: sum.splits validation.splits)

lemma ex_blank_edit_not_pattern: "\<not> terrain_pattern []"
  by (simp add: terrain_pattern_def)

text \<open>
  C5. \<open>validateEditRequest\<close> looks at the terrain only when it is truthy, so an \<open>edit-tile\<close>
  request whose terrain is the empty string (which the pattern does not match) passes: the
  tile's terrain is overwritten with the empty string, the room file is rewritten and the
  edit is broadcast to every open connection.
\<close>

theorem edit_tile_blank_terrain_applied:
  "fst (edit_tile ex_zones True ex_clients ex_editors ex_room_files 0 ex_blank_edit) (''zones/beginning'', 0) =
     Some (ex_room\<lparr> rm_tiles := [JArr [ex_tile ''grass'', JObj [(''terrain'', JStr []), (''layers'', JArr [])]],
                                  JArr [ex_tile ''sand'', ex_tile ''void'']] \<rparr>) \<and>
   snd (edit_tile ex_zones True ex_clients ex_editors ex_room_files 0 ex_blank_edit) =
     [Send 0 (MRoomUpdated 0 ex_blank_edit), Send 1 (MRoomUpdated 0 ex_blank_edit)]"
  by (simp add: edit_tile_def with_room_def privileged_def ex_editors_def ex_player_def
      ex_blank_edit_def fld_def validateRoomId_def js_parseInt_def show_int_def digits_small
      zone_of_msg_def ex_zones_def js_not_def zone_path_def ex_room_files_def
      validateEditRequest_def row_at_def tile_at_def ex_room_def ex_tile_def terrain_rejected_def
      Let_def store_prop_def persist_and_broadcast_def put_tile_def broadcast_all_def ex_clients_def)

lemma store_prop_terrain:
  "v \<noteq> JUndef \<Longrightarrow> map_of (store_prop k v fs) k = Some v \<and>
     (\<forall>k'. k' \<noteq> k \<longrightarrow> map_of (store_prop k v fs) k' = map_of fs k')"
  by (simp add: store_prop_def update_conv')

lemma terrain_pattern_accepted: "terrain_pattern t \<Longrightarrow> \<not> terrain_rejected (JStr t)"
  by (simp add: terrain_rejected_def)

text \<open>
  C7. A successful \<open>edit-tile\<close> request (privileged caller, valid room id, known zone, readable
  room whose tile (x, y) exists and is an object, terrain a string matching the pattern, write
  succeeded) leaves a room file which, read again, has the submitted terrain at tile (x, y),
  every other field of that tile as before, every other tile, the dimensions and the other
  room attributes as before; no other room file changes.
\<close>

theorem edit_tile_roundtrip:
  assumes priv: "privileged ps cid"
    and rid: "validateRoomId (fld m ''roomId'') = Inr (Valid roomId)"
    and zone: "truthy (zone_of_msg zones m)" "zone_path (zone_of_msg zones m) = Inr zp"
    and stored: "files (zp, roomId) = Some room"
    and xy: "fld m ''x'' = JNum (int x)" "fld m ''y'' = JNum (int y)"
    and row: "y < length (rm_tiles room)" "rm_tiles room ! y = JArr row"
    and tile: "x < length row" "row ! x = JObj tile"
    and terr: "fld m ''terrain'' = JStr t" "terrain_pattern t"
  shows "\<exists>files' room' row' tile'.
     edit_tile zones True cs ps files cid m = (files', broadcast_all cs (MRoomUpdated roomId m)) \<and>
     files' (zp, roomId) = Some room' \<and>
     (\<forall>key. key \<noteq> (zp, roomId) \<longrightarrow> files' key = files key) \<and>
     rm_width room' = rm_width room \<and> rm_height room' = rm_height room \<and>
     rm_other room' = rm_other room \<and>
     length (rm_tiles room') = length (rm_tiles room) \<and>
     (\<forall>j. j \<noteq> y \<longrightarrow> rm_tiles room' ! j = rm_tiles room ! j) \<and>
     rm_tiles room' ! y = JArr row' \<and> length row' = length row \<and>
     (\<forall>i. i \<noteq> x \<longrightarrow> row' ! i = row ! i) \<and>
     row' ! x = JObj tile' \<and>
     map_of tile' ''terrain'' = Some (JStr t) \<and>
     (\<forall>k. k \<noteq> ''terrain'' \<longrightarrow> map_of tile' k = map_of tile k)"
proof -
  let ?tile' = "store_prop ''terrain'' (JStr t) tile"
  let ?row' = "row[x := JObj ?tile']"
  let ?room' = "room\<lparr> rm_tiles := (rm_tiles room)[y := JArr ?row'] \<rparr>"
  let ?files' = "files((zp, roomId) \<mapsto> ?room')"
  have rowat: "row_at room y = JArr row"
    using row by (simp add: row_at_def)
  have tileat: "tile_at room x y = Inr (JObj tile)"
    using tile by (simp add: tile_at_def rowat)
  have valid: "validateEditRequest m room = Valid ()"
    using xy rowat tileat terrain_pattern_accepted[OF terr(2)] terr(1)
    by (simp add: validateEditRequest_def js_not_def)
  have put: "put_tile room x y (JObj ?tile') = ?room'"
    using row by (simp add: put_tile_def)
  have run: "edit_tile zones True cs ps files cid m = (?files', broadcast_all cs (MRoomUpdated roomId m))"
    using priv rid zone stored valid tileat terr(1) xy put
    by (simp add: edit_tile_def with_room_def Let_def js_not_def persist_and_broadcast_def)
  have t1: "map_of ?tile' ''terrain'' = Some (JStr t)"
    and t2: "\<forall>k. k \<noteq> ''terrain'' \<longrightarrow> map_of ?tile' k = map_of tile k"
    using store_prop_terrain[of "JStr t" "''terrain''" tile] by simp_all
  have f1: "?files' (zp, roomId) = Some ?room'" by simp
  have f2: "\<forall>key. key \<noteq> (zp, roomId) \<longrightarrow> ?files' key = files key" by simp
  have r1: "rm_width ?room' = rm_width room \<and> rm_height ?room' = rm_height room \<and>
     rm_other ?room' = rm_other room \<and> length (rm_tiles ?room') = length (rm_tiles room)" by simp
  have r2: "\<forall>j. j \<noteq> y \<longrightarrow> rm_tiles ?room' ! j = rm_tiles room ! j" by simp
  have r3: "rm_tiles ?room' ! y = JArr ?row' \<and> length ?row' = length row"
    using row by simp
  have r4: "\<forall>i. i \<noteq> x \<longrightarrow> ?row' ! i = row ! i" by simp
  have r5: "?row' ! x = JObj ?tile'" using tile by simp
  show ?thesis
    apply (intro exI[of _ ?files'] exI[of _ ?room'] exI[of _ ?row'] exI[of _ "?tile'"] conjI)
    using run f1 f2 r1 r2 r3 r4 r5 t1 t2 by blast+
qed

lemma ex_stone_pattern: "terrain_pattern ''stone''"
  by (simp add: terrain_pattern_def terrain_char_def)

text \<open>Tile (1, 0) of the example room turns from grass to stone.\<close>

theorem edit_tile_roundtrip_witness:
  "privileged ex_editors 0 \<and>
   validateRoomId (fld ex_stone_edit ''roomId'') = Inr (Valid 0) \<and>
   zone_path (zone_of_msg ex_zones ex_stone_edit) = Inr ''zones/beginning'' \<and>
   ex_room_files (''zones/beginning'', 0) = Some ex_room \<and>
   rm_tiles ex_room ! 0 = JArr [ex_tile ''grass'', ex_tile ''grass''] \<and>
   terrain_pattern ''stone'' \<and>
   fst (edit_tile ex_zones True ex_clients ex_editors ex_room_files 0 ex_stone_edit) (''zones/beginning'', 0) =
     Some (ex_room\<lparr> rm_tiles := [JArr [ex_tile ''grass'', ex_tile ''stone''],
                                  JArr [ex_tile ''sand'', ex_tile ''void'']] \<rparr>) \<and>
   snd (edit_tile ex_zones True ex_clients ex_editors ex_room_files 0 ex_stone_edit) =
     [Send 0 (MRoomUpdated 0 ex_stone_edit), Send 1 (MRoomUpdated 0 ex_stone_edit)]"
proof -
  have priv: "privileged ex_editors 0"
    by (simp add: privileged_def ex_editors_def ex_player_def)
  have rid: "validateRoomId (fld ex_stone_edit ''roomId'') = Inr (Valid 0)"
    by (simp add: validateRoomId_def js_parseInt_def ex_stone_edit_def fld_def show_int_def digits_small)
  have z: "zone_of_msg ex_zones ex_stone_edit = JObj [(''id'', JNum 0), (''path'', JStr ''zones/beginning'')]"
    by (simp add: zone_of_msg_def ex_zones_def ex_stone_edit_def fld_def)
  have zt: "truthy (zone_of_msg ex_zones ex_stone_edit)"
    and zp: "zone_path (zone_of_msg ex_zones ex_stone_edit) = Inr ''zones/beginning''"
    by (simp_all add: z zone_path_def)
  have stored: "ex_room_files (''zones/beginning'', 0) = Some ex_room"
    by (simp add: ex_room_files_def)
  have xy: "fld ex_stone_edit ''x'' = JNum (int 1)" "fld ex_stone_edit ''y'' = JNum (int 0)"
    by (simp_all add: ex_stone_edit_def fld_def)
  have row: "0 < length (rm_tiles ex_room)" "rm_tiles ex_room ! 0 = JArr [ex_tile ''grass'', ex_tile ''grass'']"
    by (simp_all add: ex_room_def)
  have tile: "1 < length [ex_tile ''grass'', ex_tile ''grass'']"
    "[ex_tile ''grass'', ex_tile ''grass''] ! 1 = JObj [(''terrain'', JStr ''grass''), (''layers'', JArr [])]"
    by (simp_all add: ex_tile_def)
  have terr: "fld ex_stone_edit ''terrain'' = JStr ''stone''"
    by (simp add: ex_stone_edit_def fld_def)
  from edit_tile_roundtrip[where cs = ex_clients and ps = ex_editors and cid = 0 and m = ex_stone_edit
      and zones = ex_zones and zp = "''zones/beginning''" and roomId = 0 and files = ex_room_files
      and room = ex_room and x = 1 and y = 0 and row = "[ex_tile ''grass'', ex_tile ''grass'']"
      and tile = "[(''terrain'', JStr ''grass''), (''layers'', JArr [])]" and t = "''stone''",
      OF priv rid zt zp stored xy row tile terr ex_stone_pattern]
  obtain files' where
    run: "edit_tile ex_zones True ex_clients ex_editors ex_room_files 0 ex_stone_edit =
            (files', broadcast_all ex_clients (MRoomUpdated 0 ex_stone_edit))"
    by (elim exE conjE) (erule that)
  have direct: "fst (edit_tile ex_zones True ex_clients ex_editors ex_room_files 0 ex_stone_edit)
        (''zones/beginning'', 0) =
     Some (ex_room\<lparr> rm_tiles := [JArr [ex_tile ''grass'', ex_tile ''stone''],
                                  JArr [ex_tile ''sand'', ex_tile ''void'']] \<rparr>)"
    by (simp add: edit_tile_def with_room_def priv rid zt zp stored js_not_def Let_def
        validateEditRequest_def xy row_at_def tile_at_def row ex_tile_def terr
        terrain_pattern_accepted[OF ex_stone_pattern] store_prop_def persist_and_broadcast_def
        put_tile_def) (simp add: ex_room_def ex_tile_def)
  have sent: "snd (edit_tile ex_zones True ex_clients ex_editors ex_room_files 0 ex_stone_edit) =
     [Send 0 (MRoomUpdated 0 ex_stone_edit), Send 1 (MRoomUpdated 0 ex_stone_edit)]"
    using run by (simp add: broadcast_all_def ex_clients_def)
  show ?thesis
    using priv rid zp stored row(2) ex_stone_pattern direct sent by simp
qed

section \<open>Pathfinder: shortest paths\<close>




























lemma ex_open_path: "findPath (0, 0) (1, 1) ex_open = Inr (Some [(0, 0), (1, 0), (1, 1)])"
  by code_simp




section \<open>NPC movement: the path field and the timers\<close>

text \<open>
  Boot: a regenerated instance has no \<open>movePath\<close>, and the loop that ensures the field writes
  \<open>null\<close> exactly where it is absent.
\<close>

lemma regenerate_unset: "list_all (\<lambda>n. n_movePath n = None) (regenerate templates ids k defs)"
  by (induction templates ids k defs rule: regenerate.induct) (auto split: option.splits)

lemma ensure_movement_null: "path_unset n \<Longrightarrow> n_movePath (ensure_movement n) = Some JNull"
  by (auto simp: path_unset_def ensure_movement_def)

lemma ensure_movement_kept: "n_movePath n = Some v \<Longrightarrow> n_movePath (ensure_movement n) = Some v"
  by (simp add: ensure_movement_def)

lemma boot_npcs_null:
  assumes "list_all path_unset rawNpcState"
  shows "list_all (\<lambda>n. n_movePath n = Some JNull) (boot_npcs templates ids defs rawNpcState)"
proof -
  have "list_all path_unset (regenerate templates ids 0 defs)"
    using regenerate_unset[of templates ids 0 defs] by (simp add: list_all_iff path_unset_def)
  with assms show ?thesis
    by (simp add: boot_npcs_def list_all_iff ensure_movement_null)
qed

text \<open>
  Neither the roam loop nor a firing timer writes \<open>movePath\<close>: the roam loop leaves the
  instances as they are, the completion callback writes \<open>x\<close> and \<open>y\<close> only.
\<close>

lemma roam_tick_npcs: "fst (fst (roam_tick zones cs ps files rolls us st)) = fst st"
  by (simp add: roam_tick_def split: prod.splits)

lemma fire_timer_movePath:
  "map n_movePath (fst (fst (fire_timer cs ps timerId st))) = map n_movePath (fst st)"
proof -
  have upd: "(map n_movePath xs)[k := n_movePath (xs ! k)] = map n_movePath xs" for xs :: "npc list" and k
    by (cases "k < length xs") (simp_all add: list_update_same_conv list_update_beyond)
  show ?thesis
    by (auto simp: fire_timer_def Let_def map_update upd split: option.splits)
qed

lemma apply_npc_op_movePath:
  "map n_movePath (fst (fst (apply_npc_op zones op st))) = map n_movePath (fst st)"
  by (cases op) (simp_all add: roam_tick_npcs fire_timer_movePath)

lemma npc_run_movePath: "map n_movePath (fst (npc_run zones ops st)) = map n_movePath (fst st)"
  unfolding npc_run_def
  by (induction ops arbitrary: st) (simp_all add: apply_npc_op_movePath)

text \<open>
  The timers stay consistent. Clearing the timer of an instance id removes its one pending
  timeout and its map entry; starting one clears first and then adds a timeout with a fresh
  handle; a firing timeout leaves the timers as clearing its instance id does.
\<close>

lemma timers_wf_no_entry:
  assumes "timers_wf ts" and "map_of (npcTimers ts) i = None"
  shows "filter (\<lambda>t. tm_instanceId t = i) (pending ts) = []"
  using assms by (auto simp: timers_wf_def filter_empty_conv)

lemma timers_wf_unique:
  assumes "timers_wf ts" and "t \<in> set (pending ts)" and "u \<in> set (pending ts)"
    and "tm_id t = tm_id u"
  shows "t = u"
proof -
  from assms(1) have "inj_on tm_id (set (pending ts))"
    by (simp add: timers_wf_def distinct_map)
  with assms(2-4) show ?thesis by (auto dest: inj_onD)
qed

lemma clear_next: "next_timer (clearNpcMovementTimer i ts) = next_timer ts"
  by (simp add: clearNpcMovementTimer_def split: option.splits)

lemma clear_entry: "map_of (npcTimers (clearNpcMovementTimer i ts)) i = None"
  by (simp add: clearNpcMovementTimer_def AList.delete_conv' split: option.splits)

lemma clear_wf:
  assumes wf: "timers_wf ts"
  shows "timers_wf (clearNpcMovementTimer i ts)"
proof (cases "map_of (npcTimers ts) i")
  case None
  then show ?thesis using wf by (simp add: clearNpcMovementTimer_def)
next
  case (Some timerId)
  let ?P = "filter (\<lambda>t. tm_id t \<noteq> timerId) (pending ts)"
  have eq: "clearNpcMovementTimer i ts =
              ts\<lparr> pending := ?P, npcTimers := AList.delete i (npcTimers ts) \<rparr>"
    using Some by (simp add: clearNpcMovementTimer_def)
  from wf Some obtain t0 where t0: "t0 \<in> set (pending ts)" "tm_id t0 = timerId" "tm_instanceId t0 = i"
    unfolding timers_wf_def by blast
  have d: "distinct (map tm_id ?P)"
    using wf by (simp add: timers_wf_def distinct_map_filter)
  have a: "tm_id t < next_timer ts \<and>
           map_of (AList.delete i (npcTimers ts)) (tm_instanceId t) = Some (tm_id t)"
    if "t \<in> set ?P" for t
  proof -
    from that have t: "t \<in> set (pending ts)" "tm_id t \<noteq> timerId" by auto
    with wf have m: "tm_id t < next_timer ts" "map_of (npcTimers ts) (tm_instanceId t) = Some (tm_id t)"
      by (auto simp: timers_wf_def)
    with Some t(2) have "tm_instanceId t \<noteq> i" by auto
    with m show ?thesis by (simp add: AList.delete_conv')
  qed
  have b: "\<exists>t \<in> set ?P. tm_id t = x \<and> tm_instanceId t = j"
    if "map_of (AList.delete i (npcTimers ts)) j = Some x" for j x
  proof -
    from that have j: "j \<noteq> i" "map_of (npcTimers ts) j = Some x"
      by (auto simp: AList.delete_conv' split: if_splits)
    with wf obtain t where t: "t \<in> set (pending ts)" "tm_id t = x" "tm_instanceId t = j"
      unfolding timers_wf_def by blast
    have "x \<noteq> timerId"
    proof
      assume "x = timerId"
      with t t0 have "t = t0" using timers_wf_unique[OF wf t(1) t0(1)] by simp
      with t t0 j show False by simp
    qed
    with t show ?thesis by auto
  qed
  show ?thesis unfolding eq timers_wf_def using d a b by simp
qed

lemma clear_pending:
  assumes "timers_wf ts"
  shows "filter (\<lambda>t. tm_instanceId t = i) (pending (clearNpcMovementTimer i ts)) = []"
  using timers_wf_no_entry[OF clear_wf[OF assms] clear_entry] .

lemma start_pending:
  assumes "timers_wf ts"
  shows "filter (\<lambda>t. tm_instanceId t = i) (pending (startNpcMovementTimer i k path delay ts)) =
           [scheduled ts i k path delay]"
  using clear_pending[OF assms, of i]
  by (simp add: startNpcMovementTimer_def Let_def scheduled_def clear_next)

lemma start_wf:
  assumes wf: "timers_wf ts"
  shows "timers_wf (startNpcMovementTimer i k path delay ts)"
proof -
  let ?c = "clearNpcMovementTimer i ts"
  have c: "timers_wf ?c" by (rule clear_wf[OF wf])
  have none: "tm_instanceId t \<noteq> i" if "t \<in> set (pending ?c)" for t
    using clear_pending[OF wf, of i] that by (auto simp: filter_empty_conv)
  have lt: "tm_id t < next_timer ?c" if "t \<in> set (pending ?c)" for t
    using c that by (auto simp: timers_wf_def)
  have d: "distinct (map tm_id (pending ?c))" using c by (simp add: timers_wf_def)
  have m: "map_of (npcTimers ?c) (tm_instanceId t) = Some (tm_id t)" if "t \<in> set (pending ?c)" for t
    using c that by (auto simp: timers_wf_def)
  have e: "\<exists>t \<in> set (pending ?c). tm_id t = x \<and> tm_instanceId t = j"
    if "map_of (npcTimers ?c) j = Some x" for j x
    using c that unfolding timers_wf_def by blast
  show ?thesis
    unfolding startNpcMovementTimer_def Let_def timers_wf_def
    using d lt none m e
    by (auto simp: AList.update_conv' less_Suc_eq dest: lt)
qed

lemma fire_timer_clear:
  assumes wf: "timers_wf (snd st)"
    and f: "find (\<lambda>t. tm_id t = timerId) (pending (snd st)) = Some t"
  shows "snd (fst (fire_timer cs ps timerId st)) = clearNpcMovementTimer (tm_instanceId t) (snd st)"
proof -
  from f have t: "t \<in> set (pending (snd st))" "tm_id t = timerId"
    by (auto simp: find_Some_iff)
  with wf have "map_of (npcTimers (snd st)) (tm_instanceId t) = Some timerId"
    by (auto simp: timers_wf_def)
  then show ?thesis using f
    by (simp add: fire_timer_def Let_def clearNpcMovementTimer_def)
qed

lemma fire_timer_wf:
  assumes wf: "timers_wf (snd st)"
  shows "timers_wf (snd (fst (fire_timer cs ps timerId st)))"
proof (cases "find (\<lambda>t. tm_id t = timerId) (pending (snd st))")
  case None
  then show ?thesis using wf by (simp add: fire_timer_def Let_def)
next
  case (Some t)
  show ?thesis unfolding fire_timer_clear[OF wf Some] by (rule clear_wf[OF wf])
qed

text \<open>
  The roam loop changes the timers through \<open>startNpcMovementTimer\<close> only.
\<close>

lemma roam_npc_timers:
  assumes "roam_npc zones cs ps files roll u npcs k ts = Inr (ts', out)"
  shows "ts' = ts \<or> (\<exists>path delay. ts' = startNpcMovementTimer (n_instanceId (npcs ! k)) k path delay ts)"
  using assms
  by (auto simp: roam_npc_def Let_def split: option.splits if_splits sum.splits)

lemma roam_npc_wf:
  assumes "timers_wf ts" and "roam_npc zones cs ps files roll u npcs k ts = Inr (ts', out)"
  shows "timers_wf ts'"
  using roam_npc_timers[OF assms(2)] assms(1) start_wf by auto

lemma roam_from_wf:
  "timers_wf ts \<Longrightarrow> timers_wf (fst (roam_from zones cs ps files rolls us npcs ks ts))"
proof (induction ks arbitrary: ts)
  case Nil
  then show ?case by simp
next
  case (Cons k ks)
  show ?case
  proof (cases "roam_npc zones cs ps files (rolls k) (us k) npcs k ts")
    case (Inl e)
    then show ?thesis using Cons.prems by simp
  next
    case (Inr r)
    obtain ts' out where r: "r = (ts', out)" by (cases r)
    from roam_npc_wf[OF Cons.prems Inr[unfolded r]] have "timers_wf ts'" .
    from Cons.IH[OF this] show ?thesis using Inr r by (auto split: prod.splits)
  qed
qed

lemma roam_tick_wf:
  "timers_wf (snd st) \<Longrightarrow> timers_wf (snd (fst (roam_tick zones cs ps files rolls us st)))"
  using roam_from_wf[of "snd st" zones cs ps files rolls us "fst st" "[0 ..< length (fst st)]"]
  by (auto simp: roam_tick_def split: prod.splits)

lemma apply_npc_op_wf:
  "timers_wf (snd st) \<Longrightarrow> timers_wf (snd (fst (apply_npc_op zones op st)))"
  by (cases op) (simp_all add: roam_tick_wf fire_timer_wf)

lemma npc_run_wf: "timers_wf (snd st) \<Longrightarrow> timers_wf (snd (npc_run zones ops st))"
  unfolding npc_run_def
  by (induction ops arbitrary: st) (simp_all add: apply_npc_op_wf)

lemma no_timers_wf: "timers_wf no_timers"
  by (simp add: timers_wf_def no_timers_def)

lemma timers_wf_distinct:
  assumes wf: "timers_wf ts"
  shows "distinct (map tm_instanceId (pending ts))"
proof -
  have "inj_on tm_instanceId (set (pending ts))"
  proof (rule inj_onI)
    fix t u assume tu: "t \<in> set (pending ts)" "u \<in> set (pending ts)" "tm_instanceId t = tm_instanceId u"
    from wf tu(1) have "map_of (npcTimers ts) (tm_instanceId t) = Some (tm_id t)"
      by (simp add: timers_wf_def)
    moreover from wf tu(2) have "map_of (npcTimers ts) (tm_instanceId u) = Some (tm_id u)"
      by (simp add: timers_wf_def)
    ultimately have "tm_id t = tm_id u" using tu(3) by simp
    from timers_wf_unique[OF wf tu(1,2) this] show "t = u" .
  qed
  moreover have "distinct (pending ts)" using wf by (simp add: timers_wf_def distinct_map)
  ultimately show ?thesis by (simp add: distinct_map)
qed

text \<open>
  The example: boot, the target drawn, the two roam decisions and the completion of the
  second path.
\<close>

lemma ex_boot: "boot_npcs ex_templates ex_ids ex_defs [] = [ex_fido]"
  by (simp add: boot_npcs_def ex_templates_def ex_defs_def ex_ids_def ex_fido_def ensure_movement_def)

lemma ex_boot_loaded: "boot_npcs ex_templates ex_ids ex_defs [ex_fido_en_route] = [ex_fido_en_route]"
  by (simp add: boot_npcs_def ex_fido_en_route_def ex_fido_def ensure_movement_def)

lemma ex_coords: "room_coords 0 ex_open = Inr [(0,0),(1,0),(0,1),(1,1)]"
  by (simp add: ex_open_def to_number_def upt_rec)

lemma ex_load:
  "load_room ex_zones ex_open_files ex_fido =
     Inr \<lparr> rm_width = 2, rm_height = 2, rm_tiles = ex_open, rm_other = [] \<rparr>"
  by (simp add: load_room_def ex_zones_def ex_open_files_def ex_fido_def)

lemma ex_load_en_route:
  "load_room ex_zones ex_open_files ex_fido_en_route =
     Inr \<lparr> rm_width = 2, rm_height = 2, rm_tiles = ex_open, rm_other = [] \<rparr>"
  by (simp add: load_room_def ex_zones_def ex_open_files_def ex_fido_def ex_fido_en_route_def)

lemma ex_pick: "pickRandomTile (3 / 4) ex_open = Inr (Some (1, 1))"
  "pickRandomTile (1 / 4) ex_open = Inr (Some (1, 0))"
  by (simp_all add: pickRandomTile_def ex_coords)

lemma ex_open_step: "findPath (0, 0) (1, 0) ex_open = Inr (Some [(0, 0), (1, 0)])"
  by code_simp

lemma ex_recipients: "room_recipients ex_clients ex_positions ''0'' (JNum 0) = [0]"
  by (simp add: room_recipients_def ex_clients_def ex_positions_def ex_player_def)

lemma ex_fido_fields:
  "n_roam ex_fido = Some ex_roam" "n_x ex_fido = 0" "n_y ex_fido = 0" "n_zone ex_fido = ''0''"
  "n_roomId ex_fido = 0" "n_instanceId ex_fido = ''a1b2c3d4e5f60708''" "\<not> en_route ex_fido"
  "n_roam ex_fido_en_route = Some ex_roam" "en_route ex_fido_en_route"
  by (simp_all add: ex_fido_def ex_fido_en_route_def en_route_def)

lemma ex_roam_fields:
  "r_type ex_roam = ''random''" "r_frequency ex_roam = 100" "r_minDuration ex_roam = 1"
  "r_maxDuration ex_roam = 5" "r_rate ex_roam = 2"
  by (simp_all add: ex_roam_def)

lemma ex_roam1:
  "roam_npc ex_zones ex_clients ex_positions ex_open_files 0 (3 / 4) [ex_fido] 0 no_timers =
     Inr (ex_timers1, [Send 0 (MNpcStartPath ''a1b2c3d4e5f60708'' [(0, 0), (1, 0), (1, 1)] 160)])"
  by (simp add: roam_npc_def ex_fido_fields ex_roam_fields ex_load ex_pick ex_open_path Let_def
        broadcastToRoom_def ex_recipients startNpcMovementTimer_def clearNpcMovementTimer_def
        no_timers_def ex_timers1_def)

lemma ex_roam2:
  "roam_npc ex_zones ex_clients ex_positions ex_open_files 0 (1 / 4) [ex_fido] 0 ex_timers1 =
     Inr (ex_timers2, [Send 0 (MNpcStartPath ''a1b2c3d4e5f60708'' [(0, 0), (1, 0)] 160)])"
  by (simp add: roam_npc_def ex_fido_fields ex_roam_fields ex_load ex_pick ex_open_step Let_def
        broadcastToRoom_def ex_recipients startNpcMovementTimer_def clearNpcMovementTimer_def
        ex_timers1_def ex_timers2_def)

lemma ex_stalled:
  "roam_npc ex_zones ex_clients ex_positions ex_open_files 0 (3 / 4) [ex_fido_en_route] 0 no_timers =
     Inr (no_timers, [])"
  by (simp add: roam_npc_def ex_fido_fields ex_roam_fields)

lemma ex_npc_run2:
  "npc_run ex_zones (take 2 ex_npc_ops) ([ex_fido], no_timers) = ([ex_fido], ex_timers2)"
  by (simp add: npc_run_def ex_npc_ops_def roam_tick_def ex_roam1 ex_roam2)

lemma ex_fire:
  "fire_timer ex_clients ex_positions 1 ([ex_fido], ex_timers2) =
     (([ex_fido\<lparr> n_x := 1, n_y := 0 \<rparr>], \<lparr> next_timer = 2, pending = [], npcTimers = [] \<rparr>),
      [SaveNpcState [ex_fido\<lparr> n_x := 1, n_y := 0 \<rparr>], Send 0 (MNpcMove (ex_fido\<lparr> n_x := 1, n_y := 0 \<rparr>))])"
  by (simp add: fire_timer_def ex_timers2_def Let_def broadcastToRoom_def ex_recipients ex_fido_fields)

lemma ex_npc_run:
  "npc_run ex_zones ex_npc_ops ([ex_fido], no_timers) =
     ([ex_fido\<lparr> n_x := 1, n_y := 0 \<rparr>], \<lparr> next_timer = 2, pending = [], npcTimers = [] \<rparr>)"
  by (simp add: npc_run_def ex_npc_ops_def roam_tick_def ex_roam1 ex_roam2 ex_fire[unfolded One_nat_def])

text \<open>
  C9 (amended). At boot \<open>movePath\<close> becomes \<open>null\<close> on every instance that has no such field, as
  every regenerated instance does; a value that \<open>npcs-state.json\<close> already carries is kept. No
  server operation on the NPCs (the roam loop, accepting a path included, and the completion
  timer) assigns it afterwards. So when the loaded state carries no \<open>movePath\<close> other than \<open>null\<close>,
  it is \<open>null\<close> on every instance in every later state and the guard of the roam loop never
  suppresses a roam decision. Overlapping paths are resolved by the timers alone: at most one
  completion timer is pending per instance id, and scheduling a path for an instance id leaves
  exactly the new timer pending for it.
\<close>

theorem npc_movePath_and_timers:
  "let loaded = (if rawNpcState \<noteq> [] then rawNpcState else regenerate templates ids 0 defs);
       npcs0 = boot_npcs templates ids defs rawNpcState;
       st = npc_run zones ops (npcs0, no_timers)
   in map n_movePath npcs0 =
        map (\<lambda>n. case n_movePath n of None \<Rightarrow> Some JNull | Some v \<Rightarrow> Some v) loaded \<and>
      list_all (\<lambda>n. n_movePath n = Some JNull) (boot_npcs templates ids defs []) \<and>
      map n_movePath (fst st) = map n_movePath npcs0 \<and>
      (list_all path_unset rawNpcState \<longrightarrow>
         list_all (\<lambda>n. n_movePath n = Some JNull \<and> \<not> en_route n) (fst st)) \<and>
      distinct (map tm_instanceId (pending (snd st))) \<and>
      (\<forall>instanceId k path delay.
         filter (\<lambda>t. tm_instanceId t = instanceId)
           (pending (startNpcMovementTimer instanceId k path delay (snd st))) =
         [scheduled (snd st) instanceId k path delay])"
proof -
  let ?npcs0 = "boot_npcs templates ids defs rawNpcState"
  let ?st = "npc_run zones ops (?npcs0, no_timers)"
  have a: "map n_movePath ?npcs0 =
             map (\<lambda>n. case n_movePath n of None \<Rightarrow> Some JNull | Some v \<Rightarrow> Some v)
               (if rawNpcState \<noteq> [] then rawNpcState else regenerate templates ids 0 defs)"
    by (simp add: boot_npcs_def ensure_movement_def)
  have r: "list_all (\<lambda>n. n_movePath n = Some JNull) (boot_npcs templates ids defs [])"
    by (rule boot_npcs_null) simp
  have m: "map n_movePath (fst ?st) = map n_movePath ?npcs0"
    using npc_run_movePath[of zones ops "(?npcs0, no_timers)"] by simp
  have g: "list_all (\<lambda>n. n_movePath n = Some JNull \<and> \<not> en_route n) (fst ?st)"
    if u: "list_all path_unset rawNpcState"
  proof -
    have "set (map n_movePath (fst ?st)) \<subseteq> {Some JNull}"
      unfolding m using boot_npcs_null[OF u, of templates ids defs] by (auto simp: list_all_iff)
    then show ?thesis by (auto simp: list_all_iff en_route_def)
  qed
  have wf: "timers_wf (snd ?st)"
    using npc_run_wf[of "(?npcs0, no_timers)" zones ops] by (simp add: no_timers_wf)
  show ?thesis
    unfolding Let_def
    using a r m g timers_wf_distinct[OF wf] start_pending[OF wf] by simp
qed


text \<open>
  The example NPC loaded with \<open>movePath = null\<close> roams twice and its second timer fires: the
  second path cancels the timer of the first, and \<open>movePath\<close> is \<open>null\<close> throughout.
\<close>

theorem npc_movePath_and_timers_witness:
  "list_all path_unset [ex_fido] \<and>
   boot_npcs ex_templates ex_ids ex_defs [ex_fido] = [ex_fido] \<and>
   npc_run ex_zones (take 2 ex_npc_ops) ([ex_fido], no_timers) = ([ex_fido], ex_timers2) \<and>
   npc_run ex_zones ex_npc_ops ([ex_fido], no_timers) =
     ([ex_fido\<lparr> n_x := 1, n_y := 0 \<rparr>], \<lparr> next_timer = 2, pending = [], npcTimers = [] \<rparr>) \<and>
   list_all (\<lambda>n. n_movePath n = Some JNull \<and> \<not> en_route n) [ex_fido] \<and>
   distinct (map tm_instanceId (pending ex_timers2)) \<and>
   filter (\<lambda>t. tm_instanceId t = ''a1b2c3d4e5f60708'')
     (pending (startNpcMovementTimer ''a1b2c3d4e5f60708'' 0 [(0, 0), (0, 1)] 160 ex_timers2)) =
   [scheduled ex_timers2 ''a1b2c3d4e5f60708'' 0 [(0, 0), (0, 1)] 160]"
proof -
  have h: "list_all path_unset [ex_fido]"
    by (simp add: path_unset_def ex_fido_def)
  have b: "boot_npcs ex_templates ex_ids ex_defs [ex_fido] = [ex_fido]"
    by (simp add: boot_npcs_def ensure_movement_def ex_fido_def)
  show ?thesis
    using npc_movePath_and_timers[of "[ex_fido]" ex_templates ex_ids ex_defs ex_zones "take 2 ex_npc_ops"]
      h b ex_npc_run2 ex_npc_run
    by (simp add: Let_def)
qed

text \<open>
  The claim as stated fails for an instance that the state file holds with a path: boot keeps
  the path, and the guard then suppresses the roam decision that the same draws start for the
  instance with \<open>movePath = null\<close>.
\<close>

theorem npc_movePath_null_at_boot_counterexample:
  "boot_npcs ex_templates ex_ids ex_defs [ex_fido_en_route] = [ex_fido_en_route] \<and>
   n_movePath ex_fido_en_route \<noteq> Some JNull \<and>
   en_route ex_fido_en_route \<and>
   roam_npc ex_zones ex_clients ex_positions ex_open_files 0 (3 / 4) [ex_fido_en_route] 0 no_timers =
     Inr (no_timers, []) \<and>
   roam_npc ex_zones ex_clients ex_positions ex_open_files 0 (3 / 4) [ex_fido] 0 no_timers =
     Inr (ex_timers1, [Send 0 (MNpcStartPath ''a1b2c3d4e5f60708'' [(0, 0), (1, 0), (1, 1)] 160)])"
  by (simp add: ex_boot_loaded ex_stalled ex_roam1 ex_fido_fields)
     (simp add: ex_fido_en_route_def)

end
